theory Spec2Isabelle
  imports Main "HOL-Library.Log_Nat"
begin

section \<open>Python values: errors, results, double-precision floats\<close>

text \<open>
  The exceptions that the functions of \<^verbatim>\<open>basic_sources.py\<close> can raise. A failed
  \<^verbatim>\<open>assert\<close> raises \<open>AssertionError\<close>; it is the only argument check in the file
  and plays the role of the specification's InvalidArgument.
\<close>

datatype py_error =
    AssertionError
  | ZeroDivisionError
  | OverflowError
  | ValueError
  | NotImplementedError
  | TypeError
  | IndexError
  | IOError

text \<open>A computation that may raise: \<open>Inl\<close> carries the exception, \<open>Inr\<close> the value.\<close>

definition bind_result :: "py_error + 'a \<Rightarrow> ('a \<Rightarrow> py_error + 'b) \<Rightarrow> py_error + 'b" where
  "bind_result r f = (case r of Inl e \<Rightarrow> Inl e | Inr v \<Rightarrow> f v)"

text \<open>
  A Python \<^verbatim>\<open>float\<close> is an IEEE 754 binary64 number. A finite one is represented by
  its exact rational value; the sign of zero is not represented, because no operation of
  this file observes it (\<^verbatim>\<open>math.floor\<close>, comparison with zero and multiplication
  by an infinity treat both zeros alike).
\<close>

datatype pyfloat = Finite rat | PosInf | NegInf | NaN

text \<open>\<open>ilog2 a\<close> is the binary exponent of a positive rational: \<open>2^e \<le> a < 2^(e+1)\<close>.\<close>

definition ilog2 :: "rat \<Rightarrow> int" where
  "ilog2 a = (let k = bitlen (fst (quotient_of a)) - bitlen (snd (quotient_of a))
              in if 2 powi k \<le> a then k else k - 1)"

text \<open>Rounding to the nearest integer, ties to the even one.\<close>

definition round_half_even :: "rat \<Rightarrow> int" where
  "round_half_even x =
     (let f = \<lfloor>x\<rfloor>; r = x - of_int f
      in if r < 1 / 2 then f
         else if 1 / 2 < r then f + 1
         else if even f then f else f + 1)"

text \<open>
  The distance between neighbouring doubles around a positive rational: 53 significant
  bits in the normal range, a fixed step of \<open>2^-1074\<close> below \<open>2^-1022\<close>.
\<close>

definition double_quantum :: "rat \<Rightarrow> rat" where
  "double_quantum a = 2 powi (max (ilog2 a) (- 1022) - 52)"

text \<open>
  Round-to-nearest, ties-to-even, of an exact value to binary64: the magnitude is rounded
  to a multiple of the local spacing, and a rounded magnitude of \<open>2^1024\<close> or more
  overflows to an infinity.
\<close>

definition round_magnitude :: "rat \<Rightarrow> rat" where
  "round_magnitude a = of_int (round_half_even (a / double_quantum a)) * double_quantum a"

definition round_double :: "rat \<Rightarrow> pyfloat" where
  "round_double q =
     (if q = 0 then Finite 0
      else let v = round_magnitude \<bar>q\<bar>
           in if 2 powi 1024 \<le> v then (if 0 < q then PosInf else NegInf)
              else Finite (if 0 < q then v else - v))"

text \<open>
  Conversion of an \<^verbatim>\<open>int\<close> operand in mixed arithmetic (and \<^verbatim>\<open>float(n)\<close>):
  correctly rounded, \<open>OverflowError\<close> when the integer is too large for a double.
\<close>

definition int_to_float :: "int \<Rightarrow> py_error + pyfloat" where
  "int_to_float n =
     (case round_double (of_int n) of
        Finite v \<Rightarrow> Inr (Finite v)
      | _ \<Rightarrow> Inl OverflowError)"

text \<open>
  \<^verbatim>\<open>a / b\<close> on two \<^verbatim>\<open>int\<close>s: the correctly rounded quotient,
  \<open>ZeroDivisionError\<close> for a zero divisor, \<open>OverflowError\<close> when the quotient is too
  large for a double.
\<close>

definition int_truediv :: "int \<Rightarrow> int \<Rightarrow> py_error + pyfloat" where
  "int_truediv a b =
     (if b = 0 then Inl ZeroDivisionError
      else case round_double (of_int a / of_int b) of
             Finite v \<Rightarrow> Inr (Finite v)
           | _ \<Rightarrow> Inl OverflowError)"

text \<open>\<^verbatim>\<open>x * y\<close>, \<^verbatim>\<open>x + y\<close> and \<^verbatim>\<open>x / y\<close> on two floats, as IEEE 754 defines them.\<close>

fun float_mul :: "pyfloat \<Rightarrow> pyfloat \<Rightarrow> pyfloat" where
  "float_mul NaN _ = NaN"
| "float_mul _ NaN = NaN"
| "float_mul (Finite a) (Finite b) = round_double (a * b)"
| "float_mul (Finite a) PosInf = (if a = 0 then NaN else if 0 < a then PosInf else NegInf)"
| "float_mul (Finite a) NegInf = (if a = 0 then NaN else if 0 < a then NegInf else PosInf)"
| "float_mul PosInf (Finite b) = (if b = 0 then NaN else if 0 < b then PosInf else NegInf)"
| "float_mul NegInf (Finite b) = (if b = 0 then NaN else if 0 < b then NegInf else PosInf)"
| "float_mul PosInf PosInf = PosInf"
| "float_mul PosInf NegInf = NegInf"
| "float_mul NegInf PosInf = NegInf"
| "float_mul NegInf NegInf = PosInf"

fun float_add :: "pyfloat \<Rightarrow> pyfloat \<Rightarrow> pyfloat" where
  "float_add NaN _ = NaN"
| "float_add _ NaN = NaN"
| "float_add (Finite a) (Finite b) = round_double (a + b)"
| "float_add (Finite a) PosInf = PosInf"
| "float_add (Finite a) NegInf = NegInf"
| "float_add PosInf (Finite b) = PosInf"
| "float_add NegInf (Finite b) = NegInf"
| "float_add PosInf PosInf = PosInf"
| "float_add PosInf NegInf = NaN"
| "float_add NegInf PosInf = NaN"
| "float_add NegInf NegInf = NegInf"

fun float_truediv :: "pyfloat \<Rightarrow> pyfloat \<Rightarrow> py_error + pyfloat" where
  "float_truediv x (Finite b) =
     (if b = 0 then Inl ZeroDivisionError
      else case x of
             Finite a \<Rightarrow> Inr (round_double (a / b))
           | PosInf \<Rightarrow> Inr (if 0 < b then PosInf else NegInf)
           | NegInf \<Rightarrow> Inr (if 0 < b then NegInf else PosInf)
           | NaN \<Rightarrow> Inr NaN)"
| "float_truediv (Finite a) PosInf = Inr (Finite 0)"
| "float_truediv (Finite a) NegInf = Inr (Finite 0)"
| "float_truediv _ _ = Inr NaN"

text \<open>
  \<^verbatim>\<open>math.floor\<close> of a float: \<open>OverflowError\<close> on an infinity, \<open>ValueError\<close> on
  a NaN. On an \<^verbatim>\<open>int\<close> it is the identity.
\<close>

fun math_floor :: "pyfloat \<Rightarrow> py_error + int" where
  "math_floor (Finite a) = Inr \<lfloor>a\<rfloor>"
| "math_floor PosInf = Inl OverflowError"
| "math_floor NegInf = Inl OverflowError"
| "math_floor NaN = Inl ValueError"

section \<open>Region splitter\<close>

text \<open>
  Modelled from the spec: \<open>Rectangle\<close> of \<^verbatim>\<open>delta.imagery.rectangle\<close>, a value type
  holding the four integer bounds it is constructed from.
\<close>

datatype Rectangle = Rectangle (min_x: int) (min_y: int) (max_x: int) (max_y: int)

text \<open>
  \<^verbatim>\<open>horizontal_split(image_size, region, num_splits)\<close>. \<open>band_height\<close> is a float;
  \<open>region\<close> is converted to a float for both products, and \<open>region + 1.0\<close> is a
  float addition.
\<close>

definition horizontal_split :: "int \<times> int \<Rightarrow> int \<Rightarrow> int \<Rightarrow> py_error + Rectangle" where
  "horizontal_split image_size region num_splits =
     (if \<not> region < num_splits then Inl AssertionError
      else
        bind_result (int_truediv (snd image_size) num_splits) (\<lambda>band_height.
        bind_result (int_to_float region) (\<lambda>region_f.
        bind_result (math_floor (float_mul band_height region_f)) (\<lambda>min_y.
        bind_result (int_to_float region) (\<lambda>region_f'.
        bind_result (math_floor (float_mul band_height (float_add region_f' (Finite 1)))) (\<lambda>max_y.
        Inr (Rectangle 0 min_y (fst image_size) max_y)))))))"

text \<open>
  \<^verbatim>\<open>tile_split(image_size, region, num_splits)\<close>. The row index and the tile sizes are
  floors of float quotients; \<open>min_x\<close> and \<open>min_y\<close> are integer products, \<open>max_x\<close> and
  \<open>max_y\<close> products of an integer with the float \<open>tile_col + 1.0\<close>.
\<close>

definition tile_split :: "int \<times> int \<Rightarrow> int \<Rightarrow> int \<Rightarrow> py_error + Rectangle" where
  "tile_split image_size region num_splits =
     (let num_tiles = num_splits * num_splits in
      if \<not> region < num_tiles then Inl AssertionError
      else
        bind_result (bind_result (int_truediv region num_splits) math_floor) (\<lambda>tile_row.
        bind_result (if num_splits = 0 then Inl ZeroDivisionError
                     else Inr (region mod num_splits)) (\<lambda>tile_col.
        bind_result (bind_result (int_truediv (fst image_size) num_splits) math_floor) (\<lambda>tile_width.
        bind_result (bind_result (int_truediv (snd image_size) num_splits) math_floor) (\<lambda>tile_height.
        let min_x = tile_width * tile_col in
        bind_result (int_to_float tile_col) (\<lambda>tile_col_f.
        bind_result (int_to_float tile_width) (\<lambda>tile_width_f.
        bind_result (math_floor (float_mul tile_width_f (float_add tile_col_f (Finite 1)))) (\<lambda>max_x.
        let min_y = tile_height * tile_row in
        bind_result (int_to_float tile_row) (\<lambda>tile_row_f.
        bind_result (int_to_float tile_height) (\<lambda>tile_height_f.
        bind_result (math_floor (float_mul tile_height_f (float_add tile_row_f (Finite 1)))) (\<lambda>max_y.
        Inr (Rectangle min_x min_y max_x max_y))))))))))))"

section \<open>Image contract\<close>

text \<open>
  The collaborators that live outside this file are parameters of the model. A
  \<open>world\<close> holds what they answer: \<open>record_info\<close> is
  \<^verbatim>\<open>tfrecord_utils.get_record_info(path)\<close> (band count, width, height),
  \<open>tiff_info\<close> is what a \<^verbatim>\<open>MultiTiffFileReader\<close> reports after
  \<^verbatim>\<open>load_images(paths)\<close> (band count and image size). \<open>queries\<close> logs every
  access to a backing resource, in order.
\<close>

datatype query = GetRecordInfo string | LoadImages "string list"

record world =
  record_info :: "string \<Rightarrow> py_error + (int \<times> int \<times> int)"
  tiff_info :: "string list \<Rightarrow> py_error + (int \<times> (int \<times> int))"
  queries :: "query list"

text \<open>
  A method is a function from the object and the world to its outcome, the updated
  object and the updated world. An exception keeps the changes made before it.
\<close>

type_synonym ('h, 'a) py_method = "'h \<Rightarrow> world \<Rightarrow> (py_error + 'a) \<times> 'h \<times> world"

subsection \<open>\<^verbatim>\<open>DeltaImage\<close>: the methods of the base class\<close>

text \<open>
  \<^verbatim>\<open>tiles\<close> is a generator. Its model is the sequence of outcomes of the successive
  \<^verbatim>\<open>next()\<close> calls: the size is read on the first call, each region is one call of
  \<open>horizontal_split\<close>, and the first exception ends the sequence.
\<close>

fun until_error :: "(py_error + 'a) list \<Rightarrow> (py_error + 'a) list" where
  "until_error [] = []"
| "until_error (Inl e # xs) = [Inl e]"
| "until_error (Inr v # xs) = Inr v # until_error xs"

definition tiles ::
  "('h, int \<times> int) py_method \<Rightarrow> int \<Rightarrow> 'h \<Rightarrow> world \<Rightarrow> (py_error + Rectangle) list \<times> 'h \<times> world" where
  "tiles size_method num_regions h w =
     (case size_method h w of
        (Inl e, h', w') \<Rightarrow> ([Inl e], h', w')
      | (Inr s, h', w') \<Rightarrow>
          (until_error (map (\<lambda>i. horizontal_split s (int i) num_regions) [0..<nat num_regions]),
           h', w'))"

text \<open>
  The arithmetic of \<^verbatim>\<open>estimate_memory_usage\<close>, lines 154 to 159, once the band count
  and the size are known. \<open>elem_size\<close> is \<^verbatim>\<open>sys.getsizeof(data_type(0))\<close>, which is
  32 for the default \<^verbatim>\<open>np.float64\<close> on a 64-bit CPython. The
  height and the pixel count are floats; every \<^verbatim>\<open>int\<close> operand of a float operation
  is converted when that operation is reached.
\<close>

definition estimate_bytes :: "int \<times> int \<Rightarrow> int \<Rightarrow> int \<Rightarrow> int \<Rightarrow> int \<Rightarrow> int \<Rightarrow> py_error + pyfloat" where
  "estimate_bytes full_size num_regions chunk_size chunk_overlap num_bands elem_size =
     bind_result (int_truediv (snd full_size) num_regions) (\<lambda>height.
     bind_result (int_to_float (fst full_size)) (\<lambda>width_f.
     let num_pixels = float_mul height width_f;
         spacing = chunk_size - chunk_overlap
     in
     bind_result (int_to_float (spacing * spacing)) (\<lambda>spacing2_f.
     bind_result (float_truediv num_pixels spacing2_f) (\<lambda>num_chunks.
     let chunk_area = chunk_size * chunk_size in
     bind_result (int_to_float chunk_area) (\<lambda>chunk_area_f.
     let by_area = float_mul num_chunks chunk_area_f in
     bind_result (int_to_float num_bands) (\<lambda>num_bands_f.
     let by_bands = float_mul by_area num_bands_f in
     bind_result (int_to_float elem_size) (\<lambda>elem_size_f.
     Inr (float_mul by_bands elem_size_f))))))))"

definition estimate_memory_usage ::
  "('h, int \<times> int) py_method \<Rightarrow> ('h, int) py_method \<Rightarrow> int \<Rightarrow>
   int \<Rightarrow> int \<Rightarrow> int \<Rightarrow> int \<Rightarrow> ('h, pyfloat) py_method" where
  "estimate_memory_usage size_method get_num_bands_method num_regions
       chunk_size chunk_overlap elem_size num_bands h w =
     (case (if num_bands < 1 then get_num_bands_method h w else (Inr num_bands, h, w)) of
        (Inl e, h1, w1) \<Rightarrow> (Inl e, h1, w1)
      | (Inr nb, h1, w1) \<Rightarrow>
          (case size_method h1 w1 of
             (Inl e, h2, w2) \<Rightarrow> (Inl e, h2, w2)
           | (Inr full_size, h2, w2) \<Rightarrow>
               (estimate_bytes full_size num_regions chunk_size chunk_overlap nb elem_size, h2, w2)))"

subsection \<open>\<^verbatim>\<open>TFRecordImage\<close>\<close>

record TFRecordImage =
  tf_num_regions :: int
  tf_path :: string
  tf_num_bands :: "int option"
  tf_size :: "(int \<times> int) option"

definition TFRecordImage_init :: "string \<Rightarrow> int \<Rightarrow> TFRecordImage" where
  "TFRecordImage_init path num_regions =
     \<lparr>tf_num_regions = num_regions, tf_path = path, tf_num_bands = None, tf_size = None\<rparr>"

text \<open>\<^verbatim>\<open>chunk_image_region\<close> has the body \<^verbatim>\<open>pass\<close>: it returns \<^verbatim>\<open>None\<close>.\<close>

definition TFRecordImage_chunk_image_region ::
  "'roi \<Rightarrow> int \<Rightarrow> int \<Rightarrow> 'dtype \<Rightarrow> (TFRecordImage, 'batch option) py_method" where
  "TFRecordImage_chunk_image_region roi chunk_size chunk_overlap data_type h w = (Inr None, h, w)"

definition TFRecordImage_read :: "'dtype \<Rightarrow> 'roi \<Rightarrow> (TFRecordImage, 'pixels) py_method" where
  "TFRecordImage_read data_type roi h w = (Inl NotImplementedError, h, w)"

text \<open>
  \<^verbatim>\<open>__get_bands_size\<close> stores the answer of \<^verbatim>\<open>get_record_info\<close> in the object. The
  model also hands the stored values to the caller, which returns the attribute it has
  just been given.
\<close>

definition TFRecordImage_get_bands_size :: "(TFRecordImage, int \<times> (int \<times> int)) py_method" where
  "TFRecordImage_get_bands_size h w =
     (let w' = w\<lparr>queries := queries w @ [GetRecordInfo (tf_path h)]\<rparr> in
      case record_info w (tf_path h) of
        Inl e \<Rightarrow> (Inl e, h, w')
      | Inr (num_bands, width, height) \<Rightarrow>
          (Inr (num_bands, (width, height)),
           h\<lparr>tf_num_bands := Some num_bands, tf_size := Some (width, height)\<rparr>, w'))"

definition TFRecordImage_get_num_bands :: "(TFRecordImage, int) py_method" where
  "TFRecordImage_get_num_bands h w =
     (case tf_num_bands h of
        Some n \<Rightarrow> (Inr n, h, w)
      | None \<Rightarrow>
          (case TFRecordImage_get_bands_size h w of
             (Inl e, h', w') \<Rightarrow> (Inl e, h', w')
           | (Inr stored, h', w') \<Rightarrow> (Inr (fst stored), h', w')))"

definition TFRecordImage_size :: "(TFRecordImage, int \<times> int) py_method" where
  "TFRecordImage_size h w =
     (case tf_size h of
        Some s \<Rightarrow> (Inr s, h, w)
      | None \<Rightarrow>
          (case TFRecordImage_get_bands_size h w of
             (Inl e, h', w') \<Rightarrow> (Inl e, h', w')
           | (Inr stored, h', w') \<Rightarrow> (Inr (snd stored), h', w')))"

definition TFRecordImage_tiles ::
  "TFRecordImage \<Rightarrow> world \<Rightarrow> (py_error + Rectangle) list \<times> TFRecordImage \<times> world" where
  "TFRecordImage_tiles h w = tiles TFRecordImage_size (tf_num_regions h) h w"

subsection \<open>\<^verbatim>\<open>TiffImage\<close> and \<^verbatim>\<open>SimpleTiff\<close>\<close>

record SimpleTiff =
  st_num_regions :: int
  st_path :: string

definition SimpleTiff_init :: "string \<Rightarrow> int \<Rightarrow> SimpleTiff" where
  "SimpleTiff_init path num_regions = \<lparr>st_num_regions = num_regions, st_path = path\<rparr>"

definition SimpleTiff_prep :: "(SimpleTiff, string list) py_method" where
  "SimpleTiff_prep h w = (Inr [st_path h], h, w)"

text \<open>
  \<^verbatim>\<open>TiffImage.get_num_bands\<close> and \<^verbatim>\<open>TiffImage.size\<close>: \<^verbatim>\<open>prep\<close>, a new reader,
  \<^verbatim>\<open>load_images\<close>, and the reader's answer. Nothing is stored in the object.
\<close>

definition TiffImage_load ::
  "('h, string list) py_method \<Rightarrow> ('h, int \<times> (int \<times> int)) py_method" where
  "TiffImage_load prep h w =
     (case prep h w of
        (Inl e, h', w') \<Rightarrow> (Inl e, h', w')
      | (Inr input_paths, h', w') \<Rightarrow>
          (tiff_info w' input_paths, h', w'\<lparr>queries := queries w' @ [LoadImages input_paths]\<rparr>))"

definition TiffImage_get_num_bands :: "('h, string list) py_method \<Rightarrow> ('h, int) py_method" where
  "TiffImage_get_num_bands prep h w =
     (case TiffImage_load prep h w of
        (Inl e, h', w') \<Rightarrow> (Inl e, h', w')
      | (Inr info, h', w') \<Rightarrow> (Inr (fst info), h', w'))"

definition TiffImage_size :: "('h, string list) py_method \<Rightarrow> ('h, int \<times> int) py_method" where
  "TiffImage_size prep h w =
     (case TiffImage_load prep h w of
        (Inl e, h', w') \<Rightarrow> (Inl e, h', w')
      | (Inr info, h', w') \<Rightarrow> (Inr (snd info), h', w'))"

definition SimpleTiff_size :: "(SimpleTiff, int \<times> int) py_method" where
  "SimpleTiff_size = TiffImage_size SimpleTiff_prep"

definition SimpleTiff_get_num_bands :: "(SimpleTiff, int) py_method" where
  "SimpleTiff_get_num_bands = TiffImage_get_num_bands SimpleTiff_prep"

definition SimpleTiff_tiles ::
  "SimpleTiff \<Rightarrow> world \<Rightarrow> (py_error + Rectangle) list \<times> SimpleTiff \<times> world" where
  "SimpleTiff_tiles h w = tiles SimpleTiff_size (st_num_regions h) h w"

section \<open>Chunk validity filter\<close>

text \<open>
  A chunk batch is a NumPy array of four dimensions, indexed chunk, band, row, column
  (``a numpy array of size [N, num_bands, chunk_size, chunk_size]'', in the words of
  \<^verbatim>\<open>chunk_image_region\<close>). Its attribute \<^verbatim>\<open>shape\<close> is the tuple of its dimensions.
\<close>

record 'a chunk_batch =
  cb_bands :: nat
  cb_width :: nat
  cb_height :: nat
  cb_chunks :: "'a list list list list"

definition batch_shape :: "'a chunk_batch \<Rightarrow> int \<times> int \<times> int \<times> int" where
  "batch_shape data =
     (int (length (cb_chunks data)), int (cb_bands data), int (cb_width data), int (cb_height data))"

text \<open>The shape of the slice \<^verbatim>\<open>data[i, 0, :, :]\<close>.\<close>

definition plane_shape :: "'a chunk_batch \<Rightarrow> int \<times> int" where
  "plane_shape data = (int (cb_width data), int (cb_height data))"

text \<open>
  The code writes \<^verbatim>\<open>data.shape()\<close> and \<^verbatim>\<open>chunk.shape()\<close>: it calls the tuple. A
  tuple is not callable, and the call raises \<open>TypeError\<close>. The type of the result is
  the one the caller unpacks.
\<close>

definition call_tuple :: "'t \<Rightarrow> py_error + 't" where
  "call_tuple t = Inl TypeError"

text \<open>
  An index along an axis of length \<open>n\<close>: negative indices count from the end, anything
  outside \<open>[-n, n)\<close> raises \<open>IndexError\<close>. It serves both the array and the flag list.
\<close>

definition axis_index :: "nat \<Rightarrow> int \<Rightarrow> py_error + nat" where
  "axis_index n i =
     (if 0 \<le> i \<and> i < int n then Inr (nat i)
      else if - int n \<le> i \<and> i < 0 then Inr (nat (int n + i))
      else Inl IndexError)"

text \<open>\<^verbatim>\<open>data[i, 0, :, :]\<close>: band 0 of chunk \<open>i\<close>.\<close>

definition batch_plane0 :: "'a chunk_batch \<Rightarrow> int \<Rightarrow> py_error + 'a list list" where
  "batch_plane0 data i =
     bind_result (axis_index (length (cb_chunks data)) i) (\<lambda>j.
     case cb_chunks data ! j of
       [] \<Rightarrow> Inl IndexError
     | plane # _ \<Rightarrow> Inr plane)"

definition count_nonzero :: "'a::zero list list \<Rightarrow> int" where
  "count_nonzero plane = int (length (filter (\<lambda>v. v \<noteq> 0) (concat plane)))"

text \<open>\<^verbatim>\<open>valid_chunks[i] = False\<close>.\<close>

definition store_flag :: "bool list \<Rightarrow> int \<Rightarrow> bool \<Rightarrow> py_error + bool list" where
  "store_flag flags i v = bind_result (axis_index (length flags) i) (\<lambda>j. Inr (flags[j := v]))"

text \<open>
  Lines 26 to 30: the index range of every worker. \<open>thread_size\<close> is a float, and both
  ends of a range are floors of float products.
\<close>

fun splits_loop :: "pyfloat \<Rightarrow> int list \<Rightarrow> py_error + (int \<times> int) list" where
  "splits_loop thread_size [] = Inr []"
| "splits_loop thread_size (i # rest) =
     bind_result (int_to_float i) (\<lambda>i_f.
     bind_result (math_floor (float_mul i_f thread_size)) (\<lambda>start_index.
     bind_result (int_to_float (i + 1)) (\<lambda>i1_f.
     bind_result (math_floor (float_mul i1_f thread_size)) (\<lambda>stop_index.
     bind_result (splits_loop thread_size rest) (\<lambda>splits.
     Inr ((start_index, stop_index) # splits))))))"

definition thread_splits :: "int \<Rightarrow> int \<Rightarrow> py_error + (int \<times> int) list" where
  "thread_splits num_chunks num_threads =
     bind_result (int_to_float num_chunks) (\<lambda>chunks_f.
     bind_result (int_to_float num_threads) (\<lambda>threads_f.
     bind_result (float_truediv chunks_f threads_f) (\<lambda>thread_size.
     splits_loop thread_size [0..num_threads - 1])))"

text \<open>
  \<^verbatim>\<open>check_chunks\<close>: the loop of one worker over its range. For every index it takes
  band 0 of the chunk, evaluates \<^verbatim>\<open>chunk.shape()\<close> for the first print, and flags the
  chunk when the number of non-zero pixels of the band differs from \<open>num_chunk_pixels\<close>.
\<close>

fun check_loop :: "'a::zero chunk_batch \<Rightarrow> int \<Rightarrow> int list \<Rightarrow> bool list \<Rightarrow> py_error + bool list" where
  "check_loop data num_chunk_pixels [] valid_chunks = Inr valid_chunks"
| "check_loop data num_chunk_pixels (i # rest) valid_chunks =
     bind_result (batch_plane0 data i) (\<lambda>chunk.
     bind_result (call_tuple (plane_shape data)) (\<lambda>printed_shape.
     if count_nonzero chunk \<noteq> num_chunk_pixels
     then bind_result (store_flag valid_chunks i False) (check_loop data num_chunk_pixels rest)
     else check_loop data num_chunk_pixels rest valid_chunks))"

definition check_chunks ::
  "'a::zero chunk_batch \<Rightarrow> int \<Rightarrow> int \<times> int \<Rightarrow> bool list \<Rightarrow> py_error + bool list" where
  "check_chunks data num_chunk_pixels pair valid_chunks =
     check_loop data num_chunk_pixels [fst pair..snd pair - 1] valid_chunks"

text \<open>
  \<^verbatim>\<open>pool.map(check_chunks, splits)\<close>. The workers only ever store \<open>False\<close> into the
  shared flag list, so the flags after the join do not depend on the interleaving: the
  model runs the workers one after the other. An exception raised in a worker is raised
  again by \<^verbatim>\<open>pool.map\<close> in the caller.
\<close>

fun pool_map ::
  "'a::zero chunk_batch \<Rightarrow> int \<Rightarrow> (int \<times> int) list \<Rightarrow> bool list \<Rightarrow> py_error + bool list" where
  "pool_map data num_chunk_pixels [] valid_chunks = Inr valid_chunks"
| "pool_map data num_chunk_pixels (pair # rest) valid_chunks =
     bind_result (check_chunks data num_chunk_pixels pair valid_chunks)
       (pool_map data num_chunk_pixels rest)"

text \<open>
  The outcome of \<^verbatim>\<open>parallel_filter_chunks\<close>: the batch it returns, and the number it
  prints in its last line, \<^verbatim>\<open>Num remaining chunks\<close>. The first statement of the
  function is the call \<^verbatim>\<open>data.shape()\<close>. \<^verbatim>\<open>ThreadPool(num_threads)\<close> raises
  \<open>ValueError\<close> for a thread count below 1.
\<close>

record 'a filter_outcome =
  printed_remaining :: int
  returned :: "'a chunk_batch"

definition parallel_filter_chunks ::
  "'a::zero chunk_batch \<Rightarrow> int \<Rightarrow> py_error + 'a filter_outcome" where
  "parallel_filter_chunks data num_threads =
     bind_result (call_tuple (batch_shape data)) (\<lambda>(num_chunks, unused_num_bands, width, height).
     let num_chunk_pixels = width * height;
         valid_chunks = replicate (nat num_chunks) True
     in
     bind_result (thread_splits num_chunks num_threads) (\<lambda>splits.
     if num_threads < 1 then Inl ValueError
     else
       bind_result (pool_map data num_chunk_pixels splits valid_chunks) (\<lambda>valid_chunks'.
       let valid_indices = filter (\<lambda>i. valid_chunks' ! i) [0..<nat num_chunks]
       in Inr \<lparr>printed_remaining = int (length valid_indices),
               returned = data\<lparr>cb_chunks := map (\<lambda>i. cb_chunks data ! i) valid_indices\<rparr>\<rparr>)))"

section \<open>Concrete inputs\<close>

text \<open>
  A TIFF of 100 by 100 pixels with 3 bands, and the same path after the file has been
  replaced by one of 200 by 200 pixels (one query already logged).
\<close>

definition example_tiff_world :: world where
  "example_tiff_world =
     \<lparr>record_info = (\<lambda>path. Inl IOError),
      tiff_info = (\<lambda>paths. Inr (3, (100, 100))),
      queries = []\<rparr>"

definition example_tiff_world_resized :: world where
  "example_tiff_world_resized =
     \<lparr>record_info = (\<lambda>path. Inl IOError),
      tiff_info = (\<lambda>paths. Inr (3, (200, 200))),
      queries = [LoadImages [''a.tif'']]\<rparr>"

text \<open>
  A TFRecord image of 100 by 1000 pixels with 3 bands, the same path after the record has
  been replaced, a record of width 0, and a record that declares a height of \<open>2^1024\<close>
  pixels.
\<close>

definition example_record_world :: world where
  "example_record_world =
     \<lparr>record_info = (\<lambda>path. Inr (3, 100, 1000)),
      tiff_info = (\<lambda>paths. Inl IOError),
      queries = []\<rparr>"

definition example_record_world_resized :: world where
  "example_record_world_resized =
     \<lparr>record_info = (\<lambda>path. Inr (4, 200, 2000)),
      tiff_info = (\<lambda>paths. Inl IOError),
      queries = [GetRecordInfo ''a.tfrecord'']\<rparr>"

definition example_empty_record_world :: world where
  "example_empty_record_world =
     \<lparr>record_info = (\<lambda>path. Inr (3, 0, 1000)),
      tiff_info = (\<lambda>paths. Inl IOError),
      queries = []\<rparr>"

definition huge_height :: int where
  "huge_height = 2 ^ 1024"

definition example_huge_world :: world where
  "example_huge_world =
     \<lparr>record_info = (\<lambda>path. Inr (1, 1, huge_height)),
      tiff_info = (\<lambda>paths. Inl IOError),
      queries = []\<rparr>"

text \<open>
  Two arrays: fifteen chunks of one band and one pixel, the last one zero; and three
  chunks of one band and two pixels, the first of which has one zero pixel and one
  non-zero pixel.
\<close>

definition example_batch :: "int chunk_batch" where
  "example_batch =
     \<lparr>cb_bands = 1, cb_width = 1, cb_height = 1,
      cb_chunks = replicate 14 [[[1]]] @ [[[[0]]]]\<rparr>"

definition example_partial_batch :: "int chunk_batch" where
  "example_partial_batch =
     \<lparr>cb_bands = 1, cb_width = 1, cb_height = 2,
      cb_chunks = [[[[0, 5]]], [[[7, 9]]], [[[1, 2]]]]\<rparr>"

section \<open>Facts about rounding to a double\<close>

lemma two_powi_less_iff [simp]: "(2::rat) powi m < 2 powi n \<longleftrightarrow> m < n"
proof
  assume "(2::rat) powi m < 2 powi n"
  show "m < n"
  proof (rule ccontr)
    assume "\<not> m < n"
    then have "n \<le> m" by simp
    then have "(2::rat) powi n \<le> 2 powi m" by (intro power_int_increasing) auto
    with \<open>(2::rat) powi m < 2 powi n\<close> show False by simp
  qed
next
  assume "m < n"
  then show "(2::rat) powi m < 2 powi n" by (intro power_int_strict_increasing) auto
qed

lemma two_powi_le_iff [simp]: "(2::rat) powi m \<le> 2 powi n \<longleftrightarrow> m \<le> n"
  using two_powi_less_iff [of n m] by (auto simp: not_less [symmetric] simp del: two_powi_less_iff)

lemma of_int_bitlen_bounds:
  assumes "0 < n"
  shows "(2::rat) powi (bitlen n - 1) \<le> of_int n" and "of_int n < (2::rat) powi (bitlen n)"
proof -
  from assms have b1: "1 \<le> bitlen n"
    using bitlen_eq_zero_iff [of n] bitlen_nonneg [of n] by linarith
  from bitlen_bounds [OF assms]
  have lo: "(2::int) ^ nat (bitlen n - 1) \<le> n" and hi: "n < 2 ^ nat (bitlen n)" by auto
  have "(of_int ((2::int) ^ nat (bitlen n - 1)) :: rat) \<le> of_int n"
    using lo by (simp only: of_int_le_iff)
  then show "(2::rat) powi (bitlen n - 1) \<le> of_int n"
    using b1 by (simp add: power_int_def)
  have "(of_int n :: rat) < of_int ((2::int) ^ nat (bitlen n))"
    using hi by (simp only: of_int_less_iff)
  then show "of_int n < (2::rat) powi (bitlen n)"
    using b1 by (simp add: power_int_def)
qed

lemma ilog2_bounds:
  assumes "0 < a"
  shows "2 powi ilog2 a \<le> a \<and> a < 2 powi (ilog2 a + 1)"
proof -
  obtain n d where qd: "quotient_of a = (n, d)" by (cases "quotient_of a")
  then have d: "0 < d" and a: "a = of_int n / of_int d"
    using quotient_of_denom_pos quotient_of_div by auto
  from assms a d have n: "0 < n"
    by (simp add: zero_less_divide_iff)
  define k where "k = bitlen n - bitlen d"
  have dpos: "(0::rat) < of_int d" using d by simp
  have npos: "(0::rat) < of_int n" using n by simp
  have "a < 2 powi bitlen n / 2 powi (bitlen d - 1)"
    unfolding a using of_int_bitlen_bounds [OF n] of_int_bitlen_bounds [OF d] npos
    by (intro frac_less) (auto simp: less_imp_le)
  then have up: "a < 2 powi (k + 1)"
    unfolding k_def by (simp add: power_int_diff [symmetric] algebra_simps)
  have "2 powi (bitlen n - 1) / 2 powi bitlen d < a"
    unfolding a using of_int_bitlen_bounds [OF n] of_int_bitlen_bounds [OF d] dpos
    by (intro frac_less2) (auto simp: less_imp_le)
  then have lo: "2 powi (k - 1) < a"
    unfolding k_def by (simp add: power_int_diff [symmetric] algebra_simps)
  have il: "ilog2 a = (if 2 powi k \<le> a then k else k - 1)"
    by (simp add: ilog2_def qd k_def Let_def)
  show ?thesis
  proof (cases "2 powi k \<le> a")
    case True
    with il up show ?thesis by simp
  next
    case False
    with il lo show ?thesis by (simp add: less_imp_le)
  qed
qed

lemma ilog2_unique:
  assumes "0 < a" and "2 powi e \<le> a" and "a < 2 powi (e + 1)"
  shows "ilog2 a = e"
proof -
  from ilog2_bounds [OF assms(1)]
  have lo: "2 powi ilog2 a \<le> a" and hi: "a < 2 powi (ilog2 a + 1)" by auto
  have "(2::rat) powi e < 2 powi (ilog2 a + 1)" using assms(2) hi by linarith
  then have 1: "e < ilog2 a + 1" by simp
  have "(2::rat) powi ilog2 a < 2 powi (e + 1)" using lo assms(3) by linarith
  then have 2: "ilog2 a < e + 1" by simp
  from 1 2 show ?thesis by linarith
qed

lemma round_half_even_eqI:
  assumes "\<bar>x - of_int m\<bar> < 1 / 2"
  shows "round_half_even x = m"
proof -
  have "of_int (m - 1) \<le> x" "x < of_int (m + 1)"
    using assms unfolding of_int_diff of_int_add of_int_1 by linarith+
  then have "m - 1 \<le> \<lfloor>x\<rfloor>" "\<lfloor>x\<rfloor> < m + 1"
    by (simp_all only: le_floor_iff floor_less_iff)
  then have cases: "\<lfloor>x\<rfloor> = m \<or> \<lfloor>x\<rfloor> = m - 1"
    by linarith
  then show ?thesis
  proof
    assume f: "\<lfloor>x\<rfloor> = m"
    have "of_int m \<le> x" using f of_int_floor_le [of x] by simp
    with assms have "x - of_int m < 1 / 2" by (simp add: abs_less_iff)
    then show ?thesis by (simp add: round_half_even_def f Let_def)
  next
    assume f: "\<lfloor>x\<rfloor> = m - 1"
    have "x < of_int m" using f floor_less_iff [of x m] by simp
    with assms have "1 / 2 < x - of_int (m - 1)" by (simp add: abs_less_iff)
    then show ?thesis by (simp add: round_half_even_def f Let_def)
  qed
qed

lemma round_half_even_of_int [simp]: "round_half_even (of_int n) = n"
  by (rule round_half_even_eqI) simp

lemma round_half_even_error: "\<bar>x - of_int (round_half_even x)\<bar> \<le> 1 / 2"
proof -
  have "of_int \<lfloor>x\<rfloor> \<le> x" "x < of_int \<lfloor>x\<rfloor> + 1" by linarith+
  then show ?thesis
    by (auto simp: round_half_even_def Let_def abs_le_iff)
qed

lemma round_half_even_mono:
  assumes "x \<le> y"
  shows "round_half_even x \<le> round_half_even y"
proof -
  have fm: "\<lfloor>x\<rfloor> \<le> \<lfloor>y\<rfloor>" using assms by (rule floor_mono)
  have lo: "\<lfloor>x\<rfloor> \<le> round_half_even x" "round_half_even x \<le> \<lfloor>x\<rfloor> + 1"
    by (auto simp: round_half_even_def Let_def)
  have loy: "\<lfloor>y\<rfloor> \<le> round_half_even y" "round_half_even y \<le> \<lfloor>y\<rfloor> + 1"
    by (auto simp: round_half_even_def Let_def)
  show ?thesis
  proof (cases "\<lfloor>x\<rfloor> = \<lfloor>y\<rfloor>")
    case True
    with assms show ?thesis
      by (auto simp: round_half_even_def Let_def)
  next
    case False
    with fm have "\<lfloor>x\<rfloor> + 1 \<le> \<lfloor>y\<rfloor>" by linarith
    with lo loy show ?thesis by linarith
  qed
qed


lemma double_quantum_pos [simp]: "0 < double_quantum a"
  by (simp add: double_quantum_def)

lemma double_quantum_nonneg [simp]: "0 \<le> double_quantum a"
  by (simp add: double_quantum_def)

lemma round_magnitude_error:
  "\<bar>round_magnitude a - a\<bar> \<le> double_quantum a / 2"
proof -
  define u where "u = double_quantum a"
  have u: "0 < u" by (simp add: u_def)
  have "\<bar>a / u - of_int (round_half_even (a / u))\<bar> \<le> 1 / 2"
    by (rule round_half_even_error)
  then have "\<bar>a / u - of_int (round_half_even (a / u))\<bar> * u \<le> 1 / 2 * u"
    using u by (intro mult_right_mono) auto
  moreover have "\<bar>a / u - of_int (round_half_even (a / u))\<bar> * u
      = \<bar>a - of_int (round_half_even (a / u)) * u\<bar>"
  proof -
    have "\<bar>a / u - of_int (round_half_even (a / u))\<bar> * u
        = \<bar>(a / u - of_int (round_half_even (a / u))) * u\<bar>"
      using u by (simp add: abs_mult)
    also have "(a / u - of_int (round_half_even (a / u))) * u
        = a - of_int (round_half_even (a / u)) * u"
      using u by (simp add: left_diff_distrib)
    finally show ?thesis .
  qed
  ultimately show ?thesis
    by (simp add: round_magnitude_def u_def [symmetric] abs_minus_commute)
qed

lemma round_magnitude_exact:
  assumes "a = of_int k * 2 powi j" and "max (ilog2 a) (- 1022) - 52 \<le> j"
  shows "round_magnitude a = a"
proof -
  define p where "p = max (ilog2 a) (- 1022) - 52"
  have u: "double_quantum a = 2 powi p" by (simp add: double_quantum_def p_def)
  have pj: "p \<le> j" using assms(2) by (simp add: p_def)
  have "(2::rat) powi j = 2 powi (j - p) * 2 powi p"
    by (simp add: power_int_add [symmetric])
  also have "(2::rat) powi (j - p) = of_int (2 ^ nat (j - p))"
    using pj by (simp add: power_int_def)
  finally have "a / 2 powi p = of_int (k * 2 ^ nat (j - p))"
    by (simp add: assms(1))
  then have "round_half_even (a / 2 powi p) = k * 2 ^ nat (j - p)"
    by (simp only: round_half_even_of_int)
  then have "round_magnitude a = of_int (k * 2 ^ nat (j - p)) * 2 powi p"
    by (simp add: round_magnitude_def u)
  also have "\<dots> = a"
    using \<open>a / 2 powi p = of_int (k * 2 ^ nat (j - p))\<close> by (simp add: field_simps)
  finally show ?thesis .
qed

lemma round_magnitude_eqI:
  assumes "0 < a" and "2 powi e \<le> a" and "a < 2 powi (e + 1)" and "- 1022 \<le> e"
    and "\<bar>a / 2 powi (e - 52) - of_int m\<bar> < 1 / 2"
  shows "round_magnitude a = of_int m * 2 powi (e - 52)"
proof -
  have "ilog2 a = e" using assms(1-3) by (rule ilog2_unique)
  then have u: "double_quantum a = 2 powi (e - 52)"
    using assms(4) by (simp add: double_quantum_def max_def)
  show ?thesis
    by (simp add: round_magnitude_def u round_half_even_eqI [OF assms(5)])
qed

lemma round_magnitude_range:
  assumes "0 < a"
  shows "round_magnitude a \<le> 2 powi (max (ilog2 a) (- 1022) + 1)"
    and "- 1022 \<le> ilog2 a \<Longrightarrow> 2 powi ilog2 a \<le> round_magnitude a"
proof -
  define p where "p = max (ilog2 a) (- 1022) - 52"
  have u: "double_quantum a = 2 powi p" by (simp add: double_quantum_def p_def)
  from ilog2_bounds [OF assms]
  have lo: "2 powi ilog2 a \<le> a" and hi: "a < 2 powi (ilog2 a + 1)" by auto
  have "a < 2 powi (p + 53)"
  proof -
    have "(2::rat) powi (ilog2 a + 1) \<le> 2 powi (p + 53)" by (simp add: p_def)
    with hi show ?thesis by linarith
  qed
  also have "(2::rat) powi (p + 53) = of_int (2 ^ 53) * 2 powi p"
    by (simp add: power_int_add)
  finally have "a / 2 powi p \<le> of_int (2 ^ 53)"
    by (simp add: field_simps)
  then have "round_half_even (a / 2 powi p) \<le> round_half_even (of_int (2 ^ 53))"
    by (rule round_half_even_mono)
  then have "round_half_even (a / 2 powi p) \<le> 2 ^ 53"
    by (simp only: round_half_even_of_int)
  then have "(of_int (round_half_even (a / 2 powi p)) :: rat) \<le> of_int (2 ^ 53)"
    by (simp only: of_int_le_iff)
  then have "round_magnitude a \<le> of_int (2 ^ 53) * 2 powi p"
    unfolding round_magnitude_def u by (intro mult_right_mono) auto
  also have "\<dots> = 2 powi (p + 53)" by (simp add: power_int_add)
  finally show "round_magnitude a \<le> 2 powi (max (ilog2 a) (- 1022) + 1)"
    by (simp add: p_def add.commute)
  assume n: "- 1022 \<le> ilog2 a"
  then have p: "p = ilog2 a - 52" by (simp add: p_def)
  have "(2::rat) powi ilog2 a = of_int (2 ^ 52) * 2 powi p"
    by (simp add: p power_int_diff)
  with lo have "of_int (2 ^ 52) \<le> a / 2 powi p"
    by (simp add: field_simps)
  then have "round_half_even (of_int (2 ^ 52)) \<le> round_half_even (a / 2 powi p)"
    by (rule round_half_even_mono)
  then have "2 ^ 52 \<le> round_half_even (a / 2 powi p)"
    by (simp only: round_half_even_of_int)
  then have "(of_int (2 ^ 52) :: rat) \<le> of_int (round_half_even (a / 2 powi p))"
    by (simp only: of_int_le_iff)
  then have "of_int (2 ^ 52) * 2 powi p \<le> round_magnitude a"
    unfolding round_magnitude_def u by (intro mult_right_mono) auto
  then show "2 powi ilog2 a \<le> round_magnitude a"
    using \<open>(2::rat) powi ilog2 a = of_int (2 ^ 52) * 2 powi p\<close> by simp
qed

lemma ilog2_mono:
  assumes "0 < a" and "a \<le> b"
  shows "ilog2 a \<le> ilog2 b"
proof -
  from assms have b: "0 < b" by simp
  have "2 powi ilog2 a \<le> a" using ilog2_bounds [OF assms(1)] by simp
  moreover have "b < 2 powi (ilog2 b + 1)" using ilog2_bounds [OF b] by simp
  ultimately have "(2::rat) powi ilog2 a < 2 powi (ilog2 b + 1)" using assms(2) by linarith
  then show ?thesis by simp
qed

lemma round_magnitude_mono:
  assumes "0 < a" and "a \<le> b"
  shows "round_magnitude a \<le> round_magnitude b"
proof -
  from assms have b: "0 < b" by simp
  define pa where "pa = max (ilog2 a) (- 1022)"
  define pb where "pb = max (ilog2 b) (- 1022)"
  have le: "pa \<le> pb" using ilog2_mono [OF assms] by (simp add: pa_def pb_def)
  show ?thesis
  proof (cases "pa = pb")
    case True
    then have u: "double_quantum a = double_quantum b"
      by (simp add: double_quantum_def pa_def pb_def)
    have "a / double_quantum b \<le> b / double_quantum b"
      using assms(2) less_imp_le [OF double_quantum_pos [of b]] by (rule divide_right_mono)
    then have "round_half_even (a / double_quantum b) \<le> round_half_even (b / double_quantum b)"
      by (rule round_half_even_mono)
    then have "(of_int (round_half_even (a / double_quantum b)) :: rat)
        \<le> of_int (round_half_even (b / double_quantum b))"
      by (simp only: of_int_le_iff)
    then show ?thesis
      unfolding round_magnitude_def u by (intro mult_right_mono) auto
  next
    case False
    with le have lt: "pa < pb" by simp
    then have nb: "- 1022 \<le> ilog2 b" and pbe: "pb = ilog2 b"
      by (auto simp: pa_def pb_def max_def split: if_splits)
    have "round_magnitude a \<le> 2 powi (pa + 1)"
      using round_magnitude_range(1) [OF assms(1)] by (simp add: pa_def)
    also have "\<dots> \<le> 2 powi ilog2 b" using lt pbe by simp
    also have "\<dots> \<le> round_magnitude b" using round_magnitude_range(2) [OF b nb] .
    finally show ?thesis .
  qed
qed


lemma round_magnitude_nonneg: "0 \<le> a \<Longrightarrow> 0 \<le> round_magnitude a"
proof -
  assume "0 \<le> a"
  then have "0 \<le> a / double_quantum a" by simp
  then have "round_half_even (of_int 0) \<le> round_half_even (a / double_quantum a)"
    by (intro round_half_even_mono) simp
  then have "0 \<le> round_half_even (a / double_quantum a)"
    unfolding round_half_even_of_int .
  then show ?thesis by (simp add: round_magnitude_def)
qed

lemma round_double_pos:
  "0 < q \<Longrightarrow> round_double q =
     (if 2 powi 1024 \<le> round_magnitude q then PosInf else Finite (round_magnitude q))"
  by (simp add: round_double_def Let_def)

lemma round_double_neg:
  "q < 0 \<Longrightarrow> round_double q =
     (if 2 powi 1024 \<le> round_magnitude (- q) then NegInf else Finite (- round_magnitude (- q)))"
  by (simp add: round_double_def Let_def)

lemma round_double_eqI:
  assumes "0 < q" and "2 powi e \<le> q" and "q < 2 powi (e + 1)" and "- 1022 \<le> e" and "e \<le> 1022"
    and "\<bar>q / 2 powi (e - 52) - of_int m\<bar> < 1 / 2"
  shows "round_double q = Finite (of_int m * 2 powi (e - 52))"
proof -
  have il: "ilog2 q = e" using assms(1-3) by (rule ilog2_unique)
  have v: "round_magnitude q = of_int m * 2 powi (e - 52)"
    using assms(1-4,6) by (rule round_magnitude_eqI)
  have "round_magnitude q \<le> 2 powi (e + 1)"
    using round_magnitude_range(1) [OF assms(1)] assms(4) by (simp add: il max_def)
  also have "\<dots> < 2 powi 1024" using assms(5) by (simp only: two_powi_less_iff)
  finally show ?thesis using assms(1) by (simp add: round_double_pos v)
qed

lemma round_double_exact_pos:
  assumes "0 < q" and "q = of_int k * 2 powi j" and "max (ilog2 q) (- 1022) - 52 \<le> j"
    and "q < 2 powi 1024"
  shows "round_double q = Finite q"
  using assms(1,4) round_magnitude_exact [OF assms(2,3)] by (simp add: round_double_pos)

lemma round_double_of_nat_int:
  assumes "0 < n" and "n \<le> 2 ^ 53"
  shows "round_double (of_int n) = Finite (of_int n)"
proof -
  have q: "(0::rat) < of_int n" using assms(1) by simp
  have big: "(of_int n :: rat) < 2 powi 1024"
  proof -
    have "(of_int n :: rat) \<le> of_int (2 ^ 53)" using assms(2) by (simp only: of_int_le_iff)
    also have "\<dots> = 2 powi 53" by simp
    also have "\<dots> < 2 powi 1024" by (simp only: two_powi_less_iff)
    finally show ?thesis .
  qed
  show ?thesis
  proof (cases "n = 2 ^ 53")
    case True
    have "ilog2 (of_int n) = 53"
      by (rule ilog2_unique) (simp_all add: True)
    then show ?thesis
      using q big by (intro round_double_exact_pos [where k = "2 ^ 52" and j = 1]) (simp_all add: True)
  next
    case False
    with assms(2) have "n < 2 ^ 53" by simp
    then have "(of_int n :: rat) < of_int (2 ^ 53)" by (simp only: of_int_less_iff)
    then have "(of_int n :: rat) < 2 powi 53" by simp
    moreover have "2 powi ilog2 (of_int n) \<le> (of_int n :: rat)"
      using ilog2_bounds [OF q] by simp
    ultimately have "(2::rat) powi ilog2 (of_int n) < 2 powi 53" by linarith
    then have "ilog2 (of_int n) < 53" by (simp only: two_powi_less_iff)
    then show ?thesis
      using q big by (intro round_double_exact_pos [where k = n and j = 0]) simp_all
  qed
qed

lemma round_double_of_int:
  assumes "\<bar>n\<bar> \<le> 2 ^ 53"
  shows "round_double (of_int n) = Finite (of_int n)"
proof -
  consider "n = 0" | "0 < n" | "n < 0" by linarith
  then show ?thesis
  proof cases
    case 1
    then show ?thesis by (simp add: round_double_def)
  next
    case 2
    with assms show ?thesis by (intro round_double_of_nat_int) simp_all
  next
    case 3
    then have "0 < - n" "- n \<le> 2 ^ 53" using assms by simp_all
    then have "round_double (of_int (- n)) = Finite (of_int (- n))"
      by (rule round_double_of_nat_int)
    then have "round_magnitude (of_int (- n)) = of_int (- n) \<and> \<not> 2 powi 1024 \<le> round_magnitude (of_int (- n))"
      using 3 by (simp add: round_double_pos split: if_splits)
    then show ?thesis
      using 3 by (simp add: round_double_neg)
  qed
qed

lemma int_to_float_exact: "\<bar>n\<bar> \<le> 2 ^ 53 \<Longrightarrow> int_to_float n = Inr (Finite (of_int n))"
  by (simp add: int_to_float_def round_double_of_int)

lemma round_magnitude_of_int:
  assumes "0 < n" and "n \<le> 2 ^ 53"
  shows "round_magnitude (of_int n) = of_int n"
  using round_double_of_nat_int [OF assms] assms(1)
  by (simp add: round_double_pos split: if_splits)

lemma two_powi_neg_small: "(2::rat) powi (- 1022) + 2 powi (- 1074) / 2 < 1"
proof -
  have "(2::rat) powi (- 1074) \<le> 2 powi (- 2)" by (simp only: two_powi_le_iff)
  moreover have "(2::rat) powi (- 1022) \<le> 2 powi (- 2)" by (simp only: two_powi_le_iff)
  moreover have "(2::rat) powi (- 2) = 1 / 4" by (simp add: power_int_minus_divide)
  ultimately show ?thesis by simp
qed

lemma div_le_self_int:
  assumes "0 \<le> a" and "0 < b"
  shows "a div b \<le> (a::int)"
proof -
  have k0: "0 \<le> a div b" using assms by (simp add: pos_imp_zdiv_nonneg_iff)
  have 1: "a div b * 1 \<le> a div b * b" using k0 assms(2) by (intro mult_left_mono) simp_all
  have 2: "0 \<le> a mod b" using assms(2) by simp
  have 3: "a = a div b * b + a mod b" by simp
  from 1 2 3 show ?thesis by linarith
qed

lemma round_magnitude_div_bounds:
  assumes a: "0 < a" and a53: "a < 2 ^ 53" and b: "0 < b"
  shows "of_int (a div b) \<le> round_magnitude (of_int a / of_int b)"
    and "round_magnitude (of_int a / of_int b) < of_int (a div b) + 1"
proof -
  define q :: rat where "q = of_int a / of_int b"
  define k where "k = a div b"
  have q: "0 < q" using a b by (simp add: q_def)
  have bq: "(0::rat) < of_int b" using b by simp
  have kq: "of_int k \<le> q"
  proof -
    have "k = \<lfloor>q\<rfloor>" by (simp add: k_def q_def floor_divide_of_int_eq)
    then show ?thesis by simp
  qed
  have k0: "0 \<le> k" using a b by (simp add: k_def pos_imp_zdiv_nonneg_iff)
  have ka: "k \<le> a" using a b unfolding k_def by (intro div_le_self_int) simp_all
  show "of_int k \<le> round_magnitude q"
  proof (cases "k = 0")
    case True
    then show ?thesis using round_magnitude_nonneg [of q] q by simp
  next
    case False
    with k0 have kp: "0 < k" by simp
    have "round_magnitude (of_int k) = of_int k"
      using kp ka a53 by (intro round_magnitude_of_int) simp_all
    moreover have "round_magnitude (of_int k) \<le> round_magnitude q"
      using kp kq by (intro round_magnitude_mono) simp_all
    ultimately show ?thesis by simp
  qed
  have qk: "q \<le> of_int k + 1 - 1 / of_int b"
  proof -
    have "a mod b \<le> b - 1" using b pos_mod_bound [of b a] by simp
    then have "a \<le> k * b + (b - 1)"
      unfolding k_def using div_mult_mod_eq [of a b] by linarith
    then have "(of_int a :: rat) \<le> of_int (k * b + (b - 1))" by (simp only: of_int_le_iff)
    then have "q \<le> of_int (k * b + (b - 1)) / of_int b"
      unfolding q_def using bq by (simp add: divide_right_mono)
    also have "\<dots> = of_int k + 1 - 1 / of_int b"
      using bq by (simp add: field_simps)
    finally show ?thesis .
  qed
  have err: "round_magnitude q \<le> q + double_quantum q / 2"
    using round_magnitude_error [of q] by linarith
  show "round_magnitude q < of_int k + 1"
  proof (cases "- 1022 \<le> ilog2 q")
    case True
    then have u: "double_quantum q = 2 powi ilog2 q / 2 ^ 52"
      by (simp add: double_quantum_def max_def power_int_diff)
    have "2 powi ilog2 q \<le> q" using ilog2_bounds [OF q] by simp
    then have "2 powi ilog2 q * of_int b \<le> (of_int a :: rat)"
      using bq by (simp add: q_def field_simps)
    also have "(of_int a :: rat) < of_int (2 ^ 53)" using a53 by (simp only: of_int_less_iff)
    finally have "2 powi ilog2 q * of_int b < (2::rat) ^ 53" by simp
    then have "2 powi ilog2 q / 2 ^ 52 / 2 < 1 / (of_int b :: rat)"
      using bq by (simp add: field_simps)
    with u err qk show ?thesis by simp
  next
    case False
    then have u: "double_quantum q = 2 powi (- 1074)"
      by (simp add: double_quantum_def max_def)
    have "q < 2 powi (ilog2 q + 1)" using ilog2_bounds [OF q] by simp
    also have "\<dots> \<le> 2 powi (- 1022)"
    proof -
      have "ilog2 q + 1 \<le> - 1022" using False by linarith
      then show ?thesis by (rule iffD2 [OF two_powi_le_iff])
    qed
    finally have "q < 2 powi (- 1022)" .
    then have "q + double_quantum q / 2 < 1"
      unfolding u using two_powi_neg_small by linarith
    with err k0 show ?thesis by simp
  qed
qed

lemma floor_truediv:
  assumes "0 \<le> a" and "a < 2 ^ 53" and "0 < b"
  shows "bind_result (int_truediv a b) math_floor = Inr (a div b)"
proof (cases "a = 0")
  case True
  then show ?thesis using assms(3) by (simp add: int_truediv_def round_double_def bind_result_def)
next
  case False
  with assms(1) have a: "0 < a" by simp
  define v where "v = round_magnitude (of_int a / of_int b)"
  have lo: "of_int (a div b) \<le> v" and hi: "v < of_int (a div b) + 1"
    unfolding v_def using round_magnitude_div_bounds [OF a assms(2,3)] by auto
  have "a div b \<le> a" using a assms(3) by (intro div_le_self_int) simp_all
  then have "a div b + 1 \<le> 2 ^ 53" using assms(2) by simp
  then have "(of_int (a div b + 1) :: rat) \<le> of_int (2 ^ 53)" by (simp only: of_int_le_iff)
  then have "v < 2 powi 53" using hi by simp
  also have "(2::rat) powi 53 < 2 powi 1024" by (simp only: two_powi_less_iff)
  finally have fin: "\<not> 2 powi 1024 \<le> v" by simp
  have q: "(0::rat) < of_int a / of_int b" using a assms(3) by simp
  have "round_double (of_int a / of_int b) = Finite v"
    using fin by (simp add: round_double_pos [OF q] v_def)
  moreover have "\<lfloor>v\<rfloor> = a div b" using lo hi by (simp add: floor_eq_iff)
  ultimately show ?thesis
    using assms(3) by (simp add: int_truediv_def bind_result_def)
qed

lemma float_add_ints:
  "\<bar>a + b\<bar> \<le> 2 ^ 53 \<Longrightarrow> float_add (Finite (of_int a)) (Finite (of_int b)) = Finite (of_int (a + b))"
  using round_double_of_int [of "a + b"] by simp

lemma float_mul_ints:
  "\<bar>a * b\<bar> \<le> 2 ^ 53 \<Longrightarrow> float_mul (Finite (of_int a)) (Finite (of_int b)) = Finite (of_int (a * b))"
  using round_double_of_int [of "a * b"] by simp

lemma round_double_zero [simp]: "round_double 0 = Finite 0"
  by (simp add: round_double_def)

text \<open>
  A certificate for one rounding in the normal range: the exponent \<open>e\<close> and the 53-bit
  significand \<open>m\<close>, checked by plain arithmetic.
\<close>

lemma round_double_cert:
  assumes "0 < q" and "2 powi e \<le> q" and "q < 2 powi (e + 1)" and "- 1022 \<le> e" and "e \<le> 1022"
    and "\<bar>q / 2 powi (e - 52) - of_int m\<bar> < 1 / 2"
    and "v = of_int m * 2 powi (e - 52)"
  shows "round_double q = Finite v"
  unfolding assms(7) using assms(1-6) by (rule round_double_eqI)

subsection \<open>The assertion is the only source of \<open>AssertionError\<close>\<close>

lemma int_truediv_not_assert: "int_truediv a b \<noteq> Inl AssertionError"
  by (simp add: int_truediv_def split: pyfloat.splits)

lemma int_to_float_not_assert: "int_to_float a \<noteq> Inl AssertionError"
  by (simp add: int_to_float_def split: pyfloat.splits)

lemma math_floor_not_assert: "math_floor x \<noteq> Inl AssertionError"
  by (cases x) simp_all

lemma bind_result_not_assert:
  assumes "r \<noteq> Inl AssertionError" and "\<And>v. f v \<noteq> Inl AssertionError"
  shows "bind_result r f \<noteq> Inl AssertionError"
  using assms by (cases r) (simp_all add: bind_result_def)

lemma horizontal_split_assert_iff:
  "horizontal_split image_size region num_splits = Inl AssertionError \<longleftrightarrow> num_splits \<le> region"
proof (cases "region < num_splits")
  case True
  then have "horizontal_split image_size region num_splits \<noteq> Inl AssertionError"
    by (simp add: horizontal_split_def bind_result_not_assert int_truediv_not_assert
          int_to_float_not_assert math_floor_not_assert)
  with True show ?thesis by simp
next
  case False
  then show ?thesis by (simp add: horizontal_split_def)
qed

lemma tile_split_assert_iff:
  "tile_split image_size region num_splits = Inl AssertionError \<longleftrightarrow> num_splits * num_splits \<le> region"
proof (cases "region < num_splits * num_splits")
  case True
  then have "tile_split image_size region num_splits \<noteq> Inl AssertionError"
    by (simp add: tile_split_def Let_def bind_result_not_assert int_truediv_not_assert
          int_to_float_not_assert math_floor_not_assert)
  with True show ?thesis by simp
next
  case False
  then show ?thesis by (simp add: tile_split_def)
qed

subsection \<open>Roundings at concrete inputs\<close>

lemma int_truediv_1000_19: "int_truediv 1000 19 = Inr (Finite (7407236229227789 / 140737488355328))"
proof -
  have "round_double (1000 / 19) = Finite (7407236229227789 / 140737488355328)"
    by (rule round_double_cert [where e = "5" and m = 7407236229227789]) simp_all
  then show ?thesis by (simp add: int_truediv_def)
qed

lemma float_truediv_1000_19: "float_truediv (Finite 1000) (Finite 19) = Inr (Finite (7407236229227789 / 140737488355328))"
proof -
  have "round_double (1000 / 19) = Finite (7407236229227789 / 140737488355328)"
    by (rule round_double_cert [where e = "5" and m = 7407236229227789]) simp_all
  then show ?thesis by simp
qed

lemma float_mul_1000_19_18:
  "float_mul (Finite (7407236229227789 / 140737488355328)) (Finite 18) = Finite (8333140757881263 / 8796093022208)"
  "float_mul (Finite 18) (Finite (7407236229227789 / 140737488355328)) = Finite (8333140757881263 / 8796093022208)"
proof -
  have "round_double (7407236229227789 / 140737488355328 * 18) = Finite (8333140757881263 / 8796093022208)"
    by (rule round_double_cert [where e = "9" and m = 8333140757881263]) simp_all
  then show "float_mul (Finite (7407236229227789 / 140737488355328)) (Finite 18) = Finite (8333140757881263 / 8796093022208)"
    and "float_mul (Finite 18) (Finite (7407236229227789 / 140737488355328)) = Finite (8333140757881263 / 8796093022208)"
    by (simp_all add: mult.commute)
qed

lemma float_mul_1000_19_19:
  "float_mul (Finite (7407236229227789 / 140737488355328)) (Finite 19) = Finite (8796093022207999 / 8796093022208)"
  "float_mul (Finite 19) (Finite (7407236229227789 / 140737488355328)) = Finite (8796093022207999 / 8796093022208)"
proof -
  have "round_double (7407236229227789 / 140737488355328 * 19) = Finite (8796093022207999 / 8796093022208)"
    by (rule round_double_cert [where e = "9" and m = 8796093022207999]) simp_all
  then show "float_mul (Finite (7407236229227789 / 140737488355328)) (Finite 19) = Finite (8796093022207999 / 8796093022208)"
    and "float_mul (Finite 19) (Finite (7407236229227789 / 140737488355328)) = Finite (8796093022207999 / 8796093022208)"
    by (simp_all add: mult.commute)
qed

lemma int_truediv_15_11: "int_truediv 15 11 = Inr (Finite (6141272219141585 / 4503599627370496))"
proof -
  have "round_double (15 / 11) = Finite (6141272219141585 / 4503599627370496)"
    by (rule round_double_cert [where e = "0" and m = 6141272219141585]) simp_all
  then show ?thesis by (simp add: int_truediv_def)
qed

lemma float_truediv_15_11: "float_truediv (Finite 15) (Finite 11) = Inr (Finite (6141272219141585 / 4503599627370496))"
proof -
  have "round_double (15 / 11) = Finite (6141272219141585 / 4503599627370496)"
    by (rule round_double_cert [where e = "0" and m = 6141272219141585]) simp_all
  then show ?thesis by simp
qed

lemma float_mul_15_11_1:
  "float_mul (Finite (6141272219141585 / 4503599627370496)) (Finite 1) = Finite (6141272219141585 / 4503599627370496)"
  "float_mul (Finite 1) (Finite (6141272219141585 / 4503599627370496)) = Finite (6141272219141585 / 4503599627370496)"
proof -
  have "round_double (6141272219141585 / 4503599627370496 * 1) = Finite (6141272219141585 / 4503599627370496)"
    by (rule round_double_cert [where e = "0" and m = 6141272219141585]) simp_all
  then show "float_mul (Finite (6141272219141585 / 4503599627370496)) (Finite 1) = Finite (6141272219141585 / 4503599627370496)"
    and "float_mul (Finite 1) (Finite (6141272219141585 / 4503599627370496)) = Finite (6141272219141585 / 4503599627370496)"
    by (simp_all add: mult.commute)
qed

lemma float_mul_15_11_2:
  "float_mul (Finite (6141272219141585 / 4503599627370496)) (Finite 2) = Finite (6141272219141585 / 2251799813685248)"
  "float_mul (Finite 2) (Finite (6141272219141585 / 4503599627370496)) = Finite (6141272219141585 / 2251799813685248)"
proof -
  have "round_double (6141272219141585 / 4503599627370496 * 2) = Finite (6141272219141585 / 2251799813685248)"
    by (rule round_double_cert [where e = "1" and m = 6141272219141585]) simp_all
  then show "float_mul (Finite (6141272219141585 / 4503599627370496)) (Finite 2) = Finite (6141272219141585 / 2251799813685248)"
    and "float_mul (Finite 2) (Finite (6141272219141585 / 4503599627370496)) = Finite (6141272219141585 / 2251799813685248)"
    by (simp_all add: mult.commute)
qed

lemma float_mul_15_11_3:
  "float_mul (Finite (6141272219141585 / 4503599627370496)) (Finite 3) = Finite (4605954164356189 / 1125899906842624)"
  "float_mul (Finite 3) (Finite (6141272219141585 / 4503599627370496)) = Finite (4605954164356189 / 1125899906842624)"
proof -
  have "round_double (6141272219141585 / 4503599627370496 * 3) = Finite (4605954164356189 / 1125899906842624)"
    by (rule round_double_cert [where e = "2" and m = 4605954164356189]) simp_all
  then show "float_mul (Finite (6141272219141585 / 4503599627370496)) (Finite 3) = Finite (4605954164356189 / 1125899906842624)"
    and "float_mul (Finite 3) (Finite (6141272219141585 / 4503599627370496)) = Finite (4605954164356189 / 1125899906842624)"
    by (simp_all add: mult.commute)
qed

lemma float_mul_15_11_4:
  "float_mul (Finite (6141272219141585 / 4503599627370496)) (Finite 4) = Finite (6141272219141585 / 1125899906842624)"
  "float_mul (Finite 4) (Finite (6141272219141585 / 4503599627370496)) = Finite (6141272219141585 / 1125899906842624)"
proof -
  have "round_double (6141272219141585 / 4503599627370496 * 4) = Finite (6141272219141585 / 1125899906842624)"
    by (rule round_double_cert [where e = "2" and m = 6141272219141585]) simp_all
  then show "float_mul (Finite (6141272219141585 / 4503599627370496)) (Finite 4) = Finite (6141272219141585 / 1125899906842624)"
    and "float_mul (Finite 4) (Finite (6141272219141585 / 4503599627370496)) = Finite (6141272219141585 / 1125899906842624)"
    by (simp_all add: mult.commute)
qed

lemma float_mul_15_11_5:
  "float_mul (Finite (6141272219141585 / 4503599627370496)) (Finite 5) = Finite (7676590273926981 / 1125899906842624)"
  "float_mul (Finite 5) (Finite (6141272219141585 / 4503599627370496)) = Finite (7676590273926981 / 1125899906842624)"
proof -
  have "round_double (6141272219141585 / 4503599627370496 * 5) = Finite (7676590273926981 / 1125899906842624)"
    by (rule round_double_cert [where e = "2" and m = 7676590273926981]) simp_all
  then show "float_mul (Finite (6141272219141585 / 4503599627370496)) (Finite 5) = Finite (7676590273926981 / 1125899906842624)"
    and "float_mul (Finite 5) (Finite (6141272219141585 / 4503599627370496)) = Finite (7676590273926981 / 1125899906842624)"
    by (simp_all add: mult.commute)
qed

lemma float_mul_15_11_6:
  "float_mul (Finite (6141272219141585 / 4503599627370496)) (Finite 6) = Finite (4605954164356189 / 562949953421312)"
  "float_mul (Finite 6) (Finite (6141272219141585 / 4503599627370496)) = Finite (4605954164356189 / 562949953421312)"
proof -
  have "round_double (6141272219141585 / 4503599627370496 * 6) = Finite (4605954164356189 / 562949953421312)"
    by (rule round_double_cert [where e = "3" and m = 4605954164356189]) simp_all
  then show "float_mul (Finite (6141272219141585 / 4503599627370496)) (Finite 6) = Finite (4605954164356189 / 562949953421312)"
    and "float_mul (Finite 6) (Finite (6141272219141585 / 4503599627370496)) = Finite (4605954164356189 / 562949953421312)"
    by (simp_all add: mult.commute)
qed

lemma float_mul_15_11_7:
  "float_mul (Finite (6141272219141585 / 4503599627370496)) (Finite 7) = Finite (5373613191748887 / 562949953421312)"
  "float_mul (Finite 7) (Finite (6141272219141585 / 4503599627370496)) = Finite (5373613191748887 / 562949953421312)"
proof -
  have "round_double (6141272219141585 / 4503599627370496 * 7) = Finite (5373613191748887 / 562949953421312)"
    by (rule round_double_cert [where e = "3" and m = 5373613191748887]) simp_all
  then show "float_mul (Finite (6141272219141585 / 4503599627370496)) (Finite 7) = Finite (5373613191748887 / 562949953421312)"
    and "float_mul (Finite 7) (Finite (6141272219141585 / 4503599627370496)) = Finite (5373613191748887 / 562949953421312)"
    by (simp_all add: mult.commute)
qed

lemma float_mul_15_11_8:
  "float_mul (Finite (6141272219141585 / 4503599627370496)) (Finite 8) = Finite (6141272219141585 / 562949953421312)"
  "float_mul (Finite 8) (Finite (6141272219141585 / 4503599627370496)) = Finite (6141272219141585 / 562949953421312)"
proof -
  have "round_double (6141272219141585 / 4503599627370496 * 8) = Finite (6141272219141585 / 562949953421312)"
    by (rule round_double_cert [where e = "3" and m = 6141272219141585]) simp_all
  then show "float_mul (Finite (6141272219141585 / 4503599627370496)) (Finite 8) = Finite (6141272219141585 / 562949953421312)"
    and "float_mul (Finite 8) (Finite (6141272219141585 / 4503599627370496)) = Finite (6141272219141585 / 562949953421312)"
    by (simp_all add: mult.commute)
qed

lemma float_mul_15_11_9:
  "float_mul (Finite (6141272219141585 / 4503599627370496)) (Finite 9) = Finite (6908931246534283 / 562949953421312)"
  "float_mul (Finite 9) (Finite (6141272219141585 / 4503599627370496)) = Finite (6908931246534283 / 562949953421312)"
proof -
  have "round_double (6141272219141585 / 4503599627370496 * 9) = Finite (6908931246534283 / 562949953421312)"
    by (rule round_double_cert [where e = "3" and m = 6908931246534283]) simp_all
  then show "float_mul (Finite (6141272219141585 / 4503599627370496)) (Finite 9) = Finite (6908931246534283 / 562949953421312)"
    and "float_mul (Finite 9) (Finite (6141272219141585 / 4503599627370496)) = Finite (6908931246534283 / 562949953421312)"
    by (simp_all add: mult.commute)
qed

lemma float_mul_15_11_10:
  "float_mul (Finite (6141272219141585 / 4503599627370496)) (Finite 10) = Finite (7676590273926981 / 562949953421312)"
  "float_mul (Finite 10) (Finite (6141272219141585 / 4503599627370496)) = Finite (7676590273926981 / 562949953421312)"
proof -
  have "round_double (6141272219141585 / 4503599627370496 * 10) = Finite (7676590273926981 / 562949953421312)"
    by (rule round_double_cert [where e = "3" and m = 7676590273926981]) simp_all
  then show "float_mul (Finite (6141272219141585 / 4503599627370496)) (Finite 10) = Finite (7676590273926981 / 562949953421312)"
    and "float_mul (Finite 10) (Finite (6141272219141585 / 4503599627370496)) = Finite (7676590273926981 / 562949953421312)"
    by (simp_all add: mult.commute)
qed

lemma float_mul_15_11_11:
  "float_mul (Finite (6141272219141585 / 4503599627370496)) (Finite 11) = Finite (8444249301319679 / 562949953421312)"
  "float_mul (Finite 11) (Finite (6141272219141585 / 4503599627370496)) = Finite (8444249301319679 / 562949953421312)"
proof -
  have "round_double (6141272219141585 / 4503599627370496 * 11) = Finite (8444249301319679 / 562949953421312)"
    by (rule round_double_cert [where e = "3" and m = 8444249301319679]) simp_all
  then show "float_mul (Finite (6141272219141585 / 4503599627370496)) (Finite 11) = Finite (8444249301319679 / 562949953421312)"
    and "float_mul (Finite 11) (Finite (6141272219141585 / 4503599627370496)) = Finite (8444249301319679 / 562949953421312)"
    by (simp_all add: mult.commute)
qed

section \<open>Evaluating the splitters\<close>

lemma float_mul_zero:
  "float_mul (Finite a) (Finite 0) = Finite 0"
  "float_mul (Finite 0) (Finite a) = Finite 0"
  by simp_all

lemma horizontal_split_eval:
  assumes "region < num_splits" and "\<bar>region\<bar> < 2 ^ 53"
    and "int_truediv h num_splits = Inr band_height"
    and "float_mul band_height (Finite (of_int region)) = Finite lo"
    and "float_mul band_height (Finite (of_int (region + 1))) = Finite hi"
  shows "horizontal_split (w, h) region num_splits = Inr (Rectangle 0 \<lfloor>lo\<rfloor> w \<lfloor>hi\<rfloor>)"
proof -
  have c: "int_to_float region = Inr (Finite (of_int region))"
    using assms(2) by (intro int_to_float_exact) simp
  have a: "float_add (Finite (of_int region)) (Finite 1) = Finite (of_int (region + 1))"
    using assms(2) float_add_ints [of region 1] by simp
  show ?thesis
    using assms(1)
    by (simp add: horizontal_split_def bind_result_def assms(3) c a assms(4) assms(5)
          del: float_mul.simps float_add.simps of_int_add)
qed

lemma band_1000_19_18: "horizontal_split (W, 1000) 18 19 = Inr (Rectangle 0 947 W 999)"
proof -
  have "horizontal_split (W, 1000) 18 19
      = Inr (Rectangle 0 \<lfloor>8333140757881263 / 8796093022208 :: rat\<rfloor> W \<lfloor>8796093022207999 / 8796093022208 :: rat\<rfloor>)"
    by (rule horizontal_split_eval [OF _ _ int_truediv_1000_19])
       (simp_all add: float_mul_1000_19_18 float_mul_1000_19_19 del: float_mul.simps)
  then show ?thesis by (simp add: floor_eq_iff)
qed

lemma band_15_11_0: "horizontal_split (W, 15) 0 11 = Inr (Rectangle 0 0 W 1)"
proof -
  have "horizontal_split (W, 15) 0 11
      = Inr (Rectangle 0 \<lfloor>0 :: rat\<rfloor> W \<lfloor>6141272219141585 / 4503599627370496 :: rat\<rfloor>)"
    by (rule horizontal_split_eval [OF _ _ int_truediv_15_11])
       (simp_all add: float_mul_15_11_1 float_mul_zero del: float_mul.simps)
  then show ?thesis by (simp add: floor_eq_iff)
qed

lemma band_15_11_1: "horizontal_split (W, 15) 1 11 = Inr (Rectangle 0 1 W 2)"
proof -
  have "horizontal_split (W, 15) 1 11
      = Inr (Rectangle 0 \<lfloor>6141272219141585 / 4503599627370496 :: rat\<rfloor> W \<lfloor>6141272219141585 / 2251799813685248 :: rat\<rfloor>)"
    by (rule horizontal_split_eval [OF _ _ int_truediv_15_11])
       (simp_all add: float_mul_15_11_1 float_mul_15_11_2 del: float_mul.simps)
  then show ?thesis by (simp add: floor_eq_iff)
qed

lemma band_15_11_2: "horizontal_split (W, 15) 2 11 = Inr (Rectangle 0 2 W 4)"
proof -
  have "horizontal_split (W, 15) 2 11
      = Inr (Rectangle 0 \<lfloor>6141272219141585 / 2251799813685248 :: rat\<rfloor> W \<lfloor>4605954164356189 / 1125899906842624 :: rat\<rfloor>)"
    by (rule horizontal_split_eval [OF _ _ int_truediv_15_11])
       (simp_all add: float_mul_15_11_2 float_mul_15_11_3 del: float_mul.simps)
  then show ?thesis by (simp add: floor_eq_iff)
qed

lemma band_15_11_3: "horizontal_split (W, 15) 3 11 = Inr (Rectangle 0 4 W 5)"
proof -
  have "horizontal_split (W, 15) 3 11
      = Inr (Rectangle 0 \<lfloor>4605954164356189 / 1125899906842624 :: rat\<rfloor> W \<lfloor>6141272219141585 / 1125899906842624 :: rat\<rfloor>)"
    by (rule horizontal_split_eval [OF _ _ int_truediv_15_11])
       (simp_all add: float_mul_15_11_3 float_mul_15_11_4 del: float_mul.simps)
  then show ?thesis by (simp add: floor_eq_iff)
qed

lemma band_15_11_4: "horizontal_split (W, 15) 4 11 = Inr (Rectangle 0 5 W 6)"
proof -
  have "horizontal_split (W, 15) 4 11
      = Inr (Rectangle 0 \<lfloor>6141272219141585 / 1125899906842624 :: rat\<rfloor> W \<lfloor>7676590273926981 / 1125899906842624 :: rat\<rfloor>)"
    by (rule horizontal_split_eval [OF _ _ int_truediv_15_11])
       (simp_all add: float_mul_15_11_4 float_mul_15_11_5 del: float_mul.simps)
  then show ?thesis by (simp add: floor_eq_iff)
qed

lemma band_15_11_5: "horizontal_split (W, 15) 5 11 = Inr (Rectangle 0 6 W 8)"
proof -
  have "horizontal_split (W, 15) 5 11
      = Inr (Rectangle 0 \<lfloor>7676590273926981 / 1125899906842624 :: rat\<rfloor> W \<lfloor>4605954164356189 / 562949953421312 :: rat\<rfloor>)"
    by (rule horizontal_split_eval [OF _ _ int_truediv_15_11])
       (simp_all add: float_mul_15_11_5 float_mul_15_11_6 del: float_mul.simps)
  then show ?thesis by (simp add: floor_eq_iff)
qed

lemma band_15_11_6: "horizontal_split (W, 15) 6 11 = Inr (Rectangle 0 8 W 9)"
proof -
  have "horizontal_split (W, 15) 6 11
      = Inr (Rectangle 0 \<lfloor>4605954164356189 / 562949953421312 :: rat\<rfloor> W \<lfloor>5373613191748887 / 562949953421312 :: rat\<rfloor>)"
    by (rule horizontal_split_eval [OF _ _ int_truediv_15_11])
       (simp_all add: float_mul_15_11_6 float_mul_15_11_7 del: float_mul.simps)
  then show ?thesis by (simp add: floor_eq_iff)
qed

lemma band_15_11_7: "horizontal_split (W, 15) 7 11 = Inr (Rectangle 0 9 W 10)"
proof -
  have "horizontal_split (W, 15) 7 11
      = Inr (Rectangle 0 \<lfloor>5373613191748887 / 562949953421312 :: rat\<rfloor> W \<lfloor>6141272219141585 / 562949953421312 :: rat\<rfloor>)"
    by (rule horizontal_split_eval [OF _ _ int_truediv_15_11])
       (simp_all add: float_mul_15_11_7 float_mul_15_11_8 del: float_mul.simps)
  then show ?thesis by (simp add: floor_eq_iff)
qed

lemma band_15_11_8: "horizontal_split (W, 15) 8 11 = Inr (Rectangle 0 10 W 12)"
proof -
  have "horizontal_split (W, 15) 8 11
      = Inr (Rectangle 0 \<lfloor>6141272219141585 / 562949953421312 :: rat\<rfloor> W \<lfloor>6908931246534283 / 562949953421312 :: rat\<rfloor>)"
    by (rule horizontal_split_eval [OF _ _ int_truediv_15_11])
       (simp_all add: float_mul_15_11_8 float_mul_15_11_9 del: float_mul.simps)
  then show ?thesis by (simp add: floor_eq_iff)
qed

lemma band_15_11_9: "horizontal_split (W, 15) 9 11 = Inr (Rectangle 0 12 W 13)"
proof -
  have "horizontal_split (W, 15) 9 11
      = Inr (Rectangle 0 \<lfloor>6908931246534283 / 562949953421312 :: rat\<rfloor> W \<lfloor>7676590273926981 / 562949953421312 :: rat\<rfloor>)"
    by (rule horizontal_split_eval [OF _ _ int_truediv_15_11])
       (simp_all add: float_mul_15_11_9 float_mul_15_11_10 del: float_mul.simps)
  then show ?thesis by (simp add: floor_eq_iff)
qed

lemma band_15_11_10: "horizontal_split (W, 15) 10 11 = Inr (Rectangle 0 13 W 14)"
proof -
  have "horizontal_split (W, 15) 10 11
      = Inr (Rectangle 0 \<lfloor>7676590273926981 / 562949953421312 :: rat\<rfloor> W \<lfloor>8444249301319679 / 562949953421312 :: rat\<rfloor>)"
    by (rule horizontal_split_eval [OF _ _ int_truediv_15_11])
       (simp_all add: float_mul_15_11_10 float_mul_15_11_11 del: float_mul.simps)
  then show ?thesis by (simp add: floor_eq_iff)
qed

lemma whole_image_100: "horizontal_split (100, 100) 0 1 = Inr (Rectangle 0 0 100 100)"
proof -
  have q: "int_truediv 100 1 = Inr (Finite 100)"
    using round_double_of_int [of 100] by (simp add: int_truediv_def)
  have "horizontal_split (100, 100) 0 1 = Inr (Rectangle 0 \<lfloor>0::rat\<rfloor> 100 \<lfloor>100::rat\<rfloor>)"
    by (rule horizontal_split_eval [OF _ _ q]) (simp_all add: round_double_of_int [of 100, simplified])
  then show ?thesis by simp
qed

lemma negative_region_100: "horizontal_split (100, 100) (- 1) 2 = Inr (Rectangle 0 (- 50) 100 0)"
proof -
  have q: "int_truediv 100 2 = Inr (Finite 50)"
    using round_double_of_int [of 50] by (simp add: int_truediv_def)
  have "horizontal_split (100, 100) (- 1) 2 = Inr (Rectangle 0 \<lfloor>- 50::rat\<rfloor> 100 \<lfloor>0::rat\<rfloor>)"
    by (rule horizontal_split_eval [OF _ _ q]) (simp_all add: round_double_of_int [of "- 50", simplified])
  then show ?thesis by simp
qed

lemma tile_split_eval:
  assumes "region < num_splits * num_splits" and "num_splits \<noteq> 0"
    and "bind_result (int_truediv region num_splits) math_floor = Inr tile_row"
    and "bind_result (int_truediv w num_splits) math_floor = Inr tile_width"
    and "bind_result (int_truediv h num_splits) math_floor = Inr tile_height"
    and "\<bar>region mod num_splits\<bar> < 2 ^ 53" and "\<bar>tile_width\<bar> \<le> 2 ^ 53"
    and "\<bar>tile_width * (region mod num_splits + 1)\<bar> \<le> 2 ^ 53"
    and "\<bar>tile_row\<bar> < 2 ^ 53" and "\<bar>tile_height\<bar> \<le> 2 ^ 53"
    and "\<bar>tile_height * (tile_row + 1)\<bar> \<le> 2 ^ 53"
  shows "tile_split (w, h) region num_splits =
    Inr (Rectangle (tile_width * (region mod num_splits)) (tile_height * tile_row)
          (tile_width * (region mod num_splits + 1)) (tile_height * (tile_row + 1)))"
proof -
  define tile_col where "tile_col = region mod num_splits"
  have c1: "int_to_float tile_col = Inr (Finite (of_int tile_col))"
    using assms(6) by (intro int_to_float_exact) (simp add: tile_col_def)
  have c2: "int_to_float tile_width = Inr (Finite (of_int tile_width))"
    using assms(7) by (intro int_to_float_exact)
  have c3: "int_to_float tile_row = Inr (Finite (of_int tile_row))"
    using assms(9) by (intro int_to_float_exact) simp
  have c4: "int_to_float tile_height = Inr (Finite (of_int tile_height))"
    using assms(10) by (intro int_to_float_exact)
  have a1: "float_add (Finite (of_int tile_col)) (Finite 1) = Finite (of_int (tile_col + 1))"
    using assms(6) float_add_ints [of tile_col 1] by (simp add: tile_col_def)
  have a2: "float_add (Finite (of_int tile_row)) (Finite 1) = Finite (of_int (tile_row + 1))"
    using assms(9) float_add_ints [of tile_row 1] by simp
  have m1: "float_mul (Finite (of_int tile_width)) (Finite (of_int (tile_col + 1)))
      = Finite (of_int (tile_width * (tile_col + 1)))"
    using assms(8) by (intro float_mul_ints) (simp add: tile_col_def)
  have m2: "float_mul (Finite (of_int tile_height)) (Finite (of_int (tile_row + 1)))
      = Finite (of_int (tile_height * (tile_row + 1)))"
    using assms(11) by (intro float_mul_ints)
  have row: "bind_result (bind_result (int_truediv region num_splits) math_floor) f = f tile_row" for f :: "int \<Rightarrow> py_error + Rectangle"
    unfolding assms(3) by (simp add: bind_result_def)
  have wid: "bind_result (bind_result (int_truediv w num_splits) math_floor) f = f tile_width" for f :: "int \<Rightarrow> py_error + Rectangle"
    unfolding assms(4) by (simp add: bind_result_def)
  have hei: "bind_result (bind_result (int_truediv h num_splits) math_floor) f = f tile_height" for f :: "int \<Rightarrow> py_error + Rectangle"
    unfolding assms(5) by (simp add: bind_result_def)
  have "tile_split (w, h) region num_splits =
    Inr (Rectangle (tile_width * tile_col) (tile_height * tile_row)
          \<lfloor>of_int (tile_width * (tile_col + 1)) :: rat\<rfloor> \<lfloor>of_int (tile_height * (tile_row + 1)) :: rat\<rfloor>)"
    unfolding tile_split_def Let_def fst_conv snd_conv row wid hei
    using assms(1,2)
    by (simp add: bind_result_def tile_col_def [symmetric] c1 c2 c3 c4 a1 a2 m1 m2
          del: float_mul.simps float_add.simps of_int_add of_int_mult)
  then show ?thesis
    by (simp only: floor_of_int tile_col_def)
qed

lemma div_mult_le_self_int:
  assumes "0 < b"
  shows "a div b * b \<le> (a::int)"
proof -
  have 1: "0 \<le> a mod b" using assms by simp
  have 2: "a = a div b * b + a mod b" by simp
  from 1 2 show ?thesis by linarith
qed

lemma tile_split_grid:
  assumes "0 \<le> W" and "W < 2 ^ 53" and "0 \<le> H" and "H < 2 ^ 53"
    and "1 \<le> N" and "0 \<le> region" and "region < N * N" and "region < 2 ^ 53"
  shows "tile_split (W, H) region N =
    Inr (Rectangle ((W div N) * (region mod N)) ((H div N) * (region div N))
          ((W div N) * (region mod N + 1)) ((H div N) * (region div N + 1)))"
proof -
  have N: "0 < N" using assms(5) by simp
  have col: "0 \<le> region mod N" "region mod N < N" using N by simp_all
  have col_le: "region mod N \<le> region" using assms(6) N by (simp add: zmod_le_nonneg_dividend)
  have row0: "0 \<le> region div N" using assms(6) N by (simp add: pos_imp_zdiv_nonneg_iff)
  have row_le: "region div N \<le> region" using assms(6) N by (intro div_le_self_int)
  have rN: "region div N * N \<le> region" using N by (rule div_mult_le_self_int)
  have row_lt: "region div N < N"
  proof (rule ccontr)
    assume "\<not> region div N < N"
    then have "N \<le> region div N" by simp
    then have "N * N \<le> region div N * N" using N by (intro mult_right_mono) simp_all
    with rN assms(7) show False by linarith
  qed
  have w0: "0 \<le> W div N" using assms(1) N by (simp add: pos_imp_zdiv_nonneg_iff)
  have h0: "0 \<le> H div N" using assms(3) N by (simp add: pos_imp_zdiv_nonneg_iff)
  have w_le: "W div N \<le> W" using assms(1) N by (intro div_le_self_int)
  have h_le: "H div N \<le> H" using assms(3) N by (intro div_le_self_int)
  have wN: "W div N * N \<le> W" using N by (rule div_mult_le_self_int)
  have hN: "H div N * N \<le> H" using N by (rule div_mult_le_self_int)
  have wprod: "W div N * (region mod N + 1) \<le> W"
  proof -
    have "W div N * (region mod N + 1) \<le> W div N * N"
      using w0 col(2) by (intro mult_left_mono) simp_all
    with wN show ?thesis by linarith
  qed
  have hprod: "H div N * (region div N + 1) \<le> H"
  proof -
    have "H div N * (region div N + 1) \<le> H div N * N"
      using h0 row_lt by (intro mult_left_mono) simp_all
    with hN show ?thesis by linarith
  qed
  have wprod0: "0 \<le> W div N * (region mod N + 1)" using w0 col(1) by simp
  have hprod0: "0 \<le> H div N * (region div N + 1)" using h0 row0 by simp
  show ?thesis
  proof (rule tile_split_eval)
    show "region < N * N" by fact
    show "N \<noteq> 0" using N by simp
    show "bind_result (int_truediv region N) math_floor = Inr (region div N)"
      using assms(6,8) N by (rule floor_truediv)
    show "bind_result (int_truediv W N) math_floor = Inr (W div N)"
      using assms(1,2) N by (rule floor_truediv)
    show "bind_result (int_truediv H N) math_floor = Inr (H div N)"
      using assms(3,4) N by (rule floor_truediv)
    show "\<bar>region mod N\<bar> < 2 ^ 53" using col(1) col_le assms(8) by simp
    show "\<bar>W div N\<bar> \<le> 2 ^ 53" using w0 w_le assms(2) by simp
    show "\<bar>W div N * (region mod N + 1)\<bar> \<le> 2 ^ 53" using wprod0 wprod assms(2) by simp
    show "\<bar>region div N\<bar> < 2 ^ 53" using row0 row_le assms(8) by simp
    show "\<bar>H div N\<bar> \<le> 2 ^ 53" using h0 h_le assms(4) by simp
    show "\<bar>H div N * (region div N + 1)\<bar> \<le> 2 ^ 53" using hprod0 hprod assms(4) by simp
  qed
qed

lemma tile_row_rounds_up:
  "bind_result (int_truediv 36028797018963967 268435456) math_floor = Inr 134217728"
proof -
  have "round_double (36028797018963967 / 268435456) = Finite 134217728"
    by (rule round_double_cert [where e = "26" and m = 9007199254740992]) simp_all
  then show ?thesis by (simp add: int_truediv_def bind_result_def)
qed

lemma tile_of_large_region:
  "tile_split (268435456, 268435456) 36028797018963967 268435456
     = Inr (Rectangle 268435455 134217728 268435456 134217729)"
proof -
  have one: "bind_result (int_truediv 268435456 268435456) math_floor = Inr 1"
    using floor_truediv [of 268435456 268435456] by simp
  have "tile_split (268435456, 268435456) 36028797018963967 268435456
     = Inr (Rectangle (1 * (36028797018963967 mod 268435456)) (1 * 134217728)
             (1 * (36028797018963967 mod 268435456 + 1)) (1 * (134217728 + 1)))"
    by (rule tile_split_eval [OF _ _ tile_row_rounds_up one one]) simp_all
  then show ?thesis by simp
qed

text \<open>
  Below \<open>2^53\<close> the upper end of a band and the lower end of the next one are the floor
  of the same float product: consecutive bands are contiguous whenever both exist.
\<close>

lemma horizontal_split_contiguous:
  assumes "0 \<le> region" and "region + 1 < 2 ^ 53"
    and "horizontal_split image_size region num_splits = Inr band"
    and "horizontal_split image_size (region + 1) num_splits = Inr next_band"
  shows "max_y band = min_y next_band"
proof -
  have c: "int_to_float region = Inr (Finite (of_int region))"
    using assms(1,2) by (intro int_to_float_exact) simp
  have c': "int_to_float (region + 1) = Inr (Finite (of_int (region + 1)))"
    using assms(1,2) by (intro int_to_float_exact) simp
  have a: "float_add (Finite (of_int region)) (Finite 1) = Finite (of_int (region + 1))"
    using assms(1,2) float_add_ints [of region 1] by simp
  from assms(3) obtain bh lo hi where bh: "int_truediv (snd image_size) num_splits = Inr bh"
    and hi: "math_floor (float_mul bh (Finite (of_int (region + 1)))) = Inr hi"
    and band: "band = Rectangle 0 lo (fst image_size) hi"
    by (auto simp: horizontal_split_def bind_result_def c a
          simp del: float_mul.simps float_add.simps of_int_add
          split: if_splits sum.splits)
  from assms(4) bh hi obtain hi' where "next_band = Rectangle 0 hi (fst image_size) hi'"
    by (auto simp: horizontal_split_def bind_result_def c'
          simp del: float_mul.simps float_add.simps of_int_add
          split: if_splits sum.splits)
  with band show ?thesis by simp
qed

section \<open>Bounds and monotonicity of rounding\<close>

lemma two_powi_lessI: "m < n \<Longrightarrow> (2::rat) powi m < 2 powi n"
  by (rule iffD2 [OF two_powi_less_iff])

lemma two_powi_leI: "m \<le> n \<Longrightarrow> (2::rat) powi m \<le> 2 powi n"
  by (rule iffD2 [OF two_powi_le_iff])

lemma ilog2_two_powi [simp]: "ilog2 (2 powi k) = k"
  by (rule ilog2_unique) simp_all

lemma round_magnitude_two_powi:
  "- 1022 \<le> k \<Longrightarrow> round_magnitude (2 powi k) = 2 powi k"
  by (rule round_magnitude_exact [where k = 1 and j = k]) simp_all

text \<open>Rounding keeps the order of non-negative values and every bound that is a power of two.\<close>

lemma round_double_mono_bounded:
  assumes "0 \<le> q1" and "q1 \<le> q2" and "q2 \<le> 2 powi k" and "0 \<le> k" and "k \<le> 1023"
  shows "\<exists>v1 v2. round_double q1 = Finite v1 \<and> round_double q2 = Finite v2
           \<and> 0 \<le> v1 \<and> v1 \<le> v2 \<and> v2 \<le> 2 powi k"
proof -
  have top: "(2::rat) powi k < 2 powi 1024" using assms(5) by (intro two_powi_lessI) simp
  have fin: "round_double q = Finite (round_magnitude q) \<and> round_magnitude q \<le> 2 powi k"
    if "0 < q" and "q \<le> 2 powi k" for q
  proof -
    have "round_magnitude q \<le> round_magnitude (2 powi k)"
      using that by (rule round_magnitude_mono)
    also have "\<dots> = 2 powi k" using assms(4) by (intro round_magnitude_two_powi) simp
    finally have le: "round_magnitude q \<le> 2 powi k" .
    with top have "\<not> 2 powi 1024 \<le> round_magnitude q" by linarith
    with that(1) le show ?thesis by (simp add: round_double_pos)
  qed
  show ?thesis
  proof (cases "q1 = 0")
    case True
    show ?thesis
    proof (cases "q2 = 0")
      case True
      with \<open>q1 = 0\<close> show ?thesis by simp
    next
      case False
      with assms(1,2) have "0 < q2" by simp
      from fin [OF this assms(3)] \<open>q1 = 0\<close> round_magnitude_nonneg [of q2] \<open>0 < q2\<close>
      show ?thesis by simp
    qed
  next
    case False
    with assms(1) have p1: "0 < q1" by simp
    with assms(2) have p2: "0 < q2" by simp
    have le1: "q1 \<le> 2 powi k" using assms(2,3) by simp
    have "round_magnitude q1 \<le> round_magnitude q2" using p1 assms(2) by (rule round_magnitude_mono)
    with fin [OF p1 le1] fin [OF p2 assms(3)] round_magnitude_nonneg [of q1] p1
    show ?thesis by simp
  qed
qed

lemma round_double_ge_one:
  assumes "1 \<le> q" and "round_double q = Finite v"
  shows "1 \<le> v"
proof -
  have q: "0 < q" using assms(1) by simp
  have "round_magnitude 1 \<le> round_magnitude q" using assms(1) by (intro round_magnitude_mono) simp_all
  moreover have "round_magnitude 1 = 1"
    using round_magnitude_two_powi [of 0] by simp
  moreover have "v = round_magnitude q"
    using assms(2) q by (simp add: round_double_pos split: if_splits)
  ultimately show ?thesis by simp
qed

lemma round_double_finite:
  assumes "\<bar>q\<bar> \<le> 2 powi 1023"
  shows "\<exists>v. round_double q = Finite v"
proof -
  consider "0 \<le> q" | "q < 0" by linarith
  then show ?thesis
  proof cases
    case 1
    with assms have "q \<le> 2 powi 1023" by simp
    from round_double_mono_bounded [OF 1 order_refl this] show ?thesis by auto
  next
    case 2
    with assms have "0 \<le> - q" "- q \<le> 2 powi 1023" by simp_all
    from round_double_mono_bounded [OF this(1) order_refl this(2)]
    obtain v where "round_double (- q) = Finite v" by auto
    then have "\<not> 2 powi 1024 \<le> round_magnitude (- q)"
      using 2 by (simp add: round_double_pos split: if_splits)
    then show ?thesis using 2 by (simp add: round_double_neg)
  qed
qed

lemma int_to_float_finite:
  assumes "\<bar>n\<bar> \<le> 2 ^ 1023"
  shows "\<exists>v. int_to_float n = Inr (Finite v)"
proof -
  have "(of_int \<bar>n\<bar> :: rat) \<le> of_int (2 ^ 1023)" using assms by (simp only: of_int_le_iff)
  then have "\<bar>of_int n :: rat\<bar> \<le> 2 powi 1023" by simp
  from round_double_finite [OF this] show ?thesis by (auto simp: int_to_float_def)
qed

lemma int_truediv_finite:
  assumes "\<bar>a\<bar> \<le> 2 ^ 1023" and "1 \<le> b"
  shows "\<exists>v. int_truediv a b = Inr (Finite v)"
proof -
  have b: "(1::rat) \<le> of_int b" using assms(2) by simp
  have "\<bar>of_int a / of_int b :: rat\<bar> = \<bar>of_int a\<bar> / of_int b" using b by simp
  also have "\<dots> \<le> \<bar>of_int a\<bar> / 1" using b by (intro divide_left_mono) simp_all
  also have "\<dots> = of_int \<bar>a\<bar>" by simp
  also have "\<dots> \<le> of_int (2 ^ 1023)" using assms(1) by (simp only: of_int_le_iff)
  finally have "\<bar>of_int a / of_int b :: rat\<bar> \<le> 2 powi 1023" by simp
  from round_double_finite [OF this] show ?thesis
    using assms(2) by (auto simp: int_truediv_def)
qed

lemma estimate_bytes_zero_stride:
  assumes "\<bar>W\<bar> \<le> 2 ^ 1023" and "\<bar>H\<bar> \<le> 2 ^ 1023" and "1 \<le> num_regions"
  shows "estimate_bytes (W, H) num_regions c c num_bands elem_size = Inl ZeroDivisionError"
proof -
  obtain height where h: "int_truediv H num_regions = Inr (Finite height)"
    using int_truediv_finite [OF assms(2,3)] by blast
  obtain width where w: "int_to_float W = Inr (Finite width)"
    using int_to_float_finite [OF assms(1)] by blast
  have z: "int_to_float 0 = Inr (Finite 0)" by (simp add: int_to_float_def)
  show ?thesis
    by (simp add: estimate_bytes_def bind_result_def Let_def h w z del: float_mul.simps)
qed

lemma round_double_mono_pow:
  fixes k :: nat
  assumes "0 \<le> q1" and "q1 \<le> q2" and "q2 \<le> 2 ^ k" and "k \<le> 1023"
  shows "\<exists>v1 v2. round_double q1 = Finite v1 \<and> round_double q2 = Finite v2
           \<and> 0 \<le> v1 \<and> v1 \<le> v2 \<and> v2 \<le> 2 ^ k"
  using round_double_mono_bounded [of q1 q2 "int k"] assms by simp

lemma int_to_float_mono_pow:
  fixes k :: nat
  assumes "0 \<le> n1" and "n1 \<le> n2" and "n2 \<le> 2 ^ k" and "k \<le> 1023"
  shows "\<exists>v1 v2. int_to_float n1 = Inr (Finite v1) \<and> int_to_float n2 = Inr (Finite v2)
           \<and> 0 \<le> v1 \<and> v1 \<le> v2 \<and> v2 \<le> 2 ^ k \<and> (1 \<le> n1 \<longrightarrow> 1 \<le> v1)"
proof -
  have "(of_int n2 :: rat) \<le> of_int (2 ^ k)" using assms(3) by (simp only: of_int_le_iff)
  then have top: "(of_int n2 :: rat) \<le> 2 ^ k" by simp
  have "(0::rat) \<le> of_int n1" "(of_int n1 :: rat) \<le> of_int n2" using assms(1,2) by simp_all
  from round_double_mono_pow [OF this top assms(4)]
  obtain v1 v2 where v: "round_double (of_int n1) = Finite v1" "round_double (of_int n2) = Finite v2"
    "0 \<le> v1" "v1 \<le> v2" "v2 \<le> 2 ^ k" by blast
  have "1 \<le> v1" if "1 \<le> n1"
  proof -
    have "(1::rat) \<le> of_int n1" using that by simp
    then show ?thesis using v(1) by (rule round_double_ge_one)
  qed
  with v show ?thesis by (simp add: int_to_float_def)
qed

lemma float_mul_mono_pow:
  fixes j k :: nat
  assumes "0 \<le> a1" and "a1 \<le> a2" and "a2 \<le> 2 ^ j"
    and "0 \<le> b1" and "b1 \<le> b2" and "b2 \<le> 2 ^ k" and "j + k \<le> 1023"
  shows "\<exists>v1 v2. float_mul (Finite a1) (Finite b1) = Finite v1
           \<and> float_mul (Finite a2) (Finite b2) = Finite v2
           \<and> 0 \<le> v1 \<and> v1 \<le> v2 \<and> v2 \<le> 2 ^ (j + k)"
proof -
  have 1: "0 \<le> a1 * b1" using assms(1,4) by simp
  have 2: "a1 * b1 \<le> a2 * b2" using assms(1,2,4,5) by (intro mult_mono) simp_all
  have "a2 * b2 \<le> 2 ^ j * 2 ^ k" using assms by (intro mult_mono) simp_all
  then have 3: "a2 * b2 \<le> 2 ^ (j + k)" by (simp add: power_add)
  from round_double_mono_pow [OF 1 2 3 assms(7)] show ?thesis by simp
qed

lemma float_truediv_mono_pow:
  fixes j :: nat
  assumes "0 \<le> a1" and "a1 \<le> a2" and "a2 \<le> 2 ^ j" and "1 \<le> b2" and "b2 \<le> b1" and "j \<le> 1023"
  shows "\<exists>v1 v2. float_truediv (Finite a1) (Finite b1) = Inr (Finite v1)
           \<and> float_truediv (Finite a2) (Finite b2) = Inr (Finite v2)
           \<and> 0 \<le> v1 \<and> v1 \<le> v2 \<and> v2 \<le> 2 ^ j"
proof -
  have b: "0 < b2" "0 < b1" using assms(4,5) by simp_all
  have 1: "0 \<le> a1 / b1" using assms(1) b by simp
  have 2: "a1 / b1 \<le> a2 / b2" using assms(1,2,5) b by (intro frac_le) simp_all
  have "a2 / b2 \<le> a2 / 1" using assms(1,2,4) by (intro divide_left_mono) simp_all
  with assms(3) have 3: "a2 / b2 \<le> 2 ^ j" by simp
  from round_double_mono_pow [OF 1 2 3 assms(6)] b show ?thesis by auto
qed

lemma int_truediv_bounded_pow:
  fixes k :: nat
  assumes "0 \<le> a" and "a \<le> 2 ^ k" and "1 \<le> b" and "k \<le> 1023"
  shows "\<exists>v. int_truediv a b = Inr (Finite v) \<and> 0 \<le> v \<and> v \<le> 2 ^ k"
proof -
  have b: "(1::rat) \<le> of_int b" using assms(3) by simp
  have a: "(0::rat) \<le> of_int a" using assms(1) by simp
  have 1: "(0::rat) \<le> of_int a / of_int b" using a b by simp
  have "(of_int a :: rat) / of_int b \<le> of_int a / 1" using a b by (intro divide_left_mono) simp_all
  also have "\<dots> \<le> of_int (2 ^ k)" using assms(2) by (simp only: div_by_1 of_int_le_iff)
  finally have 3: "(of_int a :: rat) / of_int b \<le> 2 ^ k" by simp
  from round_double_mono_pow [OF 1 order_refl 3 assms(4)] assms(3)
  show ?thesis by (auto simp: int_truediv_def)
qed

lemma estimate_bytes_mono:
  assumes W: "0 \<le> W" "W \<le> 2 ^ 100" and H: "0 \<le> H" "H \<le> 2 ^ 100" and nr: "1 \<le> num_regions"
    and es: "0 \<le> elem_size" "elem_size \<le> 2 ^ 100"
    and cs: "\<bar>chunk_size\<bar> \<le> 2 ^ 100"
    and co: "- (2 ^ 100) \<le> overlap1" "overlap1 \<le> overlap2" "overlap2 < chunk_size"
    and nb: "0 \<le> bands1" "bands1 \<le> bands2" "bands2 \<le> 2 ^ 100"
  shows "\<exists>a b. estimate_bytes (W, H) num_regions chunk_size overlap1 bands1 elem_size = Inr (Finite a)
           \<and> estimate_bytes (W, H) num_regions chunk_size overlap2 bands2 elem_size = Inr (Finite b)
           \<and> 0 \<le> a \<and> a \<le> b"
proof -
  define s1 where "s1 = chunk_size - overlap1"
  define s2 where "s2 = chunk_size - overlap2"
  have s: "1 \<le> s2" "s2 \<le> s1" "s1 \<le> 2 ^ 101"
    using co cs by (simp_all add: s1_def s2_def)
  have sq: "1 \<le> s2 * s2" "s2 * s2 \<le> s1 * s1" "s1 * s1 \<le> 2 ^ 202"
  proof -
    show "1 \<le> s2 * s2" using s(1) by (metis mult_mono order_trans zero_le_one mult_1)
    show "s2 * s2 \<le> s1 * s1" using s by (intro mult_mono) simp_all
    have "s1 * s1 \<le> 2 ^ 101 * 2 ^ 101" using s by (intro mult_mono) simp_all
    then show "s1 * s1 \<le> 2 ^ 202" by simp
  qed
  have area: "0 \<le> chunk_size * chunk_size" "chunk_size * chunk_size \<le> 2 ^ 200"
  proof -
    show "0 \<le> chunk_size * chunk_size" by simp
    have "chunk_size * chunk_size = \<bar>chunk_size\<bar> * \<bar>chunk_size\<bar>" by simp
    also have "\<dots> \<le> 2 ^ 100 * 2 ^ 100" using cs by (intro mult_mono) simp_all
    finally show "chunk_size * chunk_size \<le> 2 ^ 200" by simp
  qed
  obtain hv where hv: "int_truediv H num_regions = Inr (Finite hv)" "0 \<le> hv" "hv \<le> 2 ^ 100"
    using int_truediv_bounded_pow [OF H nr, of ] by auto
  obtain wv where wv: "int_to_float W = Inr (Finite wv)" "0 \<le> wv" "wv \<le> 2 ^ 100"
    using int_to_float_mono_pow [OF W(1) order_refl W(2)] by auto
  obtain pv where pv: "float_mul (Finite hv) (Finite wv) = Finite pv" "0 \<le> pv" "pv \<le> 2 ^ 200"
    using float_mul_mono_pow [OF hv(2) order_refl hv(3) wv(2) order_refl wv(3)] by auto
  obtain t2 t1 where t: "int_to_float (s2 * s2) = Inr (Finite t2)" "int_to_float (s1 * s1) = Inr (Finite t1)"
      "t2 \<le> t1" "1 \<le> t2"
    using int_to_float_mono_pow [OF _ sq(2,3), of ] sq(1) by auto
  obtain c1 c2 where c: "float_truediv (Finite pv) (Finite t1) = Inr (Finite c1)"
      "float_truediv (Finite pv) (Finite t2) = Inr (Finite c2)" "0 \<le> c1" "c1 \<le> c2" "c2 \<le> 2 ^ 200"
    using float_truediv_mono_pow [OF pv(2) order_refl pv(3) t(4,3)] by auto
  obtain av where av: "int_to_float (chunk_size * chunk_size) = Inr (Finite av)" "0 \<le> av" "av \<le> 2 ^ 200"
    using int_to_float_mono_pow [OF area(1) order_refl area(2)] by auto
  obtain y1 y2 where y: "float_mul (Finite c1) (Finite av) = Finite y1"
      "float_mul (Finite c2) (Finite av) = Finite y2" "0 \<le> y1" "y1 \<le> y2" "y2 \<le> 2 ^ (200 + 200)"
    using float_mul_mono_pow [OF c(3,4,5) av(2) order_refl av(3)] by auto
  obtain n1 n2 where n: "int_to_float bands1 = Inr (Finite n1)" "int_to_float bands2 = Inr (Finite n2)"
      "0 \<le> n1" "n1 \<le> n2" "n2 \<le> 2 ^ 100"
    using int_to_float_mono_pow [OF nb] by auto
  obtain z1 z2 where z: "float_mul (Finite y1) (Finite n1) = Finite z1"
      "float_mul (Finite y2) (Finite n2) = Finite z2" "0 \<le> z1" "z1 \<le> z2" "z2 \<le> 2 ^ (200 + 200 + 100)"
    using float_mul_mono_pow [OF y(3,4,5) n(3,4,5)] by auto
  obtain ev where ev: "int_to_float elem_size = Inr (Finite ev)" "0 \<le> ev" "ev \<le> 2 ^ 100"
    using int_to_float_mono_pow [OF es(1) order_refl es(2)] by auto
  obtain r1 r2 where r: "float_mul (Finite z1) (Finite ev) = Finite r1"
      "float_mul (Finite z2) (Finite ev) = Finite r2" "0 \<le> r1" "r1 \<le> r2"
    using float_mul_mono_pow [OF z(3,4,5) ev(2) order_refl ev(3)] by auto
  have "estimate_bytes (W, H) num_regions chunk_size overlap1 bands1 elem_size = Inr (Finite r1)"
    by (simp add: estimate_bytes_def bind_result_def Let_def hv wv pv t c av y n z ev r
          s1_def [symmetric] del: float_mul.simps float_truediv.simps)
  moreover have "estimate_bytes (W, H) num_regions chunk_size overlap2 bands2 elem_size = Inr (Finite r2)"
    by (simp add: estimate_bytes_def bind_result_def Let_def hv wv pv t c av y n z ev r
          s2_def [symmetric] del: float_mul.simps float_truediv.simps)
  ultimately show ?thesis using r(3,4) by simp
qed

section \<open>Image handles and the memory estimate\<close>

lemma TFRecordImage_size_cached:
  "tf_size h = Some s \<Longrightarrow> TFRecordImage_size h w = (Inr s, h, w)"
  by (simp add: TFRecordImage_size_def)

lemma TFRecordImage_get_num_bands_cached:
  "tf_num_bands h = Some n \<Longrightarrow> TFRecordImage_get_num_bands h w = (Inr n, h, w)"
  by (simp add: TFRecordImage_get_num_bands_def)

lemma TFRecordImage_first_size:
  assumes "TFRecordImage_size (TFRecordImage_init path n) w = (Inr s, h1, w1)"
  shows "\<exists>nb. record_info w path = Inr (nb, s)
           \<and> h1 = (TFRecordImage_init path n)\<lparr>tf_num_bands := Some nb, tf_size := Some s\<rparr>
           \<and> w1 = w\<lparr>queries := queries w @ [GetRecordInfo path]\<rparr>"
  using assms
  by (auto simp: TFRecordImage_size_def TFRecordImage_init_def TFRecordImage_get_bands_size_def
        Let_def split: sum.splits prod.splits)

lemma TFRecordImage_first_num_bands:
  assumes "TFRecordImage_get_num_bands (TFRecordImage_init path n) w = (Inr nb, h1, w1)"
  shows "\<exists>s. record_info w path = Inr (nb, s)
           \<and> h1 = (TFRecordImage_init path n)\<lparr>tf_num_bands := Some nb, tf_size := Some s\<rparr>
           \<and> w1 = w\<lparr>queries := queries w @ [GetRecordInfo path]\<rparr>"
  using assms
  by (auto simp: TFRecordImage_get_num_bands_def TFRecordImage_init_def TFRecordImage_get_bands_size_def
        Let_def split: sum.splits prod.splits)

lemma TFRecordImage_tiles_cached:
  "tf_size h = Some s \<Longrightarrow>
   TFRecordImage_tiles h w =
     (until_error (map (\<lambda>i. horizontal_split s (int i) (tf_num_regions h)) [0..<nat (tf_num_regions h)]),
      h, w)"
  by (simp add: TFRecordImage_tiles_def tiles_def TFRecordImage_size_cached)

lemma round_double_numeral:
  "(numeral n :: int) \<le> 2 ^ 53 \<Longrightarrow> round_double (numeral n) = Finite (numeral n)"
  using round_double_of_int [of "numeral n"] by simp

lemma round_double_one: "round_double 1 = Finite 1"
  using round_double_of_int [of 1] by simp

lemma int_truediv_huge: "int_truediv huge_height 1 = Inl OverflowError"
proof -
  have q: "(of_int huge_height :: rat) / of_int 1 = 2 powi 1024"
    by (simp add: huge_height_def)
  have rm: "round_magnitude (2 powi 1024) = 2 powi 1024"
    by (rule round_magnitude_two_powi) simp
  have pos: "(0::rat) < 2 powi 1024" by (rule zero_less_power_int) simp
  have rd: "round_double (2 powi 1024) = PosInf"
    unfolding round_double_pos [OF pos] rm by (simp only: order_refl if_True)
  show ?thesis unfolding int_truediv_def q rd by simp
qed

lemma estimate_memory_usage_resolved_state:
  assumes "(if num_bands < 1 then get_num_bands_method h w else (Inr num_bands, h, w))
           = (Inr nb, h1, w1)"
    and "size_method h1 w1 = (Inr full_size, h2, w2)"
  shows "estimate_memory_usage size_method get_num_bands_method num_regions
           chunk_size chunk_overlap elem_size num_bands h w
         = (estimate_bytes full_size num_regions chunk_size chunk_overlap nb elem_size, h2, w2)"
  unfolding estimate_memory_usage_def assms(1) by (simp add: assms(2))

lemma estimate_memory_usage_resolved:
  assumes "(if num_bands < 1 then get_num_bands_method h w else (Inr num_bands, h, w))
           = (Inr nb, h1, w1)"
    and "fst (size_method h1 w1) = Inr full_size"
  shows "fst (estimate_memory_usage size_method get_num_bands_method num_regions
                chunk_size chunk_overlap elem_size num_bands h w)
         = estimate_bytes full_size num_regions chunk_size chunk_overlap nb elem_size"
proof -
  obtain h2 w2 where "size_method h1 w1 = (Inr full_size, h2, w2)"
    using assms(2) by (cases "size_method h1 w1") auto
  from estimate_memory_usage_resolved_state
      [where size_method = size_method and get_num_bands_method = get_num_bands_method
         and h = h and w = w and num_bands = num_bands, OF assms(1) this]
  show ?thesis by simp
qed

lemma TFRecordImage_first_calls:
  assumes "record_info w path = Inr (nb, s)"
  shows "TFRecordImage_size (TFRecordImage_init path n) w
           = (Inr s, (TFRecordImage_init path n)\<lparr>tf_num_bands := Some nb, tf_size := Some s\<rparr>,
              w\<lparr>queries := queries w @ [GetRecordInfo path]\<rparr>)"
    and "TFRecordImage_get_num_bands (TFRecordImage_init path n) w
           = (Inr nb, (TFRecordImage_init path n)\<lparr>tf_num_bands := Some nb, tf_size := Some s\<rparr>,
              w\<lparr>queries := queries w @ [GetRecordInfo path]\<rparr>)"
  using assms
  by (cases s; simp add: TFRecordImage_size_def TFRecordImage_get_num_bands_def
        TFRecordImage_init_def TFRecordImage_get_bands_size_def)+

lemma example_record_size:
  "TFRecordImage_size (TFRecordImage_init ''a.tfrecord'' 2) example_record_world
     = (Inr (100, 1000),
        (TFRecordImage_init ''a.tfrecord'' 2)\<lparr>tf_num_bands := Some 3, tf_size := Some (100, 1000)\<rparr>,
        example_record_world\<lparr>queries := [GetRecordInfo ''a.tfrecord'']\<rparr>)"
  by (simp add: TFRecordImage_size_def TFRecordImage_init_def TFRecordImage_get_bands_size_def
        example_record_world_def)

lemma example_record_bands:
  "TFRecordImage_get_num_bands (TFRecordImage_init ''a.tfrecord'' 2) example_record_world
     = (Inr 3,
        (TFRecordImage_init ''a.tfrecord'' 2)\<lparr>tf_num_bands := Some 3, tf_size := Some (100, 1000)\<rparr>,
        example_record_world\<lparr>queries := [GetRecordInfo ''a.tfrecord'']\<rparr>)"
  by (simp add: TFRecordImage_get_num_bands_def TFRecordImage_init_def TFRecordImage_get_bands_size_def
        example_record_world_def)

lemma example_empty_record_size:
  "TFRecordImage_size (TFRecordImage_init ''a.tfrecord'' 2) example_empty_record_world
     = (Inr (0, 1000),
        (TFRecordImage_init ''a.tfrecord'' 2)\<lparr>tf_num_bands := Some 3, tf_size := Some (0, 1000)\<rparr>,
        example_empty_record_world\<lparr>queries := [GetRecordInfo ''a.tfrecord'']\<rparr>)"
  by (simp add: TFRecordImage_size_def TFRecordImage_init_def TFRecordImage_get_bands_size_def
        example_empty_record_world_def)

lemma example_estimates:
  "estimate_bytes (100, 1000) 2 2 1 1 32 = Inr (Finite 6400000)"
  "estimate_bytes (100, 1000) 2 3 1 1 32 = Inr (Finite 3600000)"
  "estimate_bytes (100, 1000) 2 2 1 3 32 = Inr (Finite 19200000)"
  "estimate_bytes (0, 1000) 2 2 0 1 32 = Inr (Finite 0)"
  "estimate_bytes (0, 1000) 2 2 1 1 32 = Inr (Finite 0)"
  by (simp_all add: estimate_bytes_def bind_result_def Let_def int_truediv_def int_to_float_def
        round_double_numeral round_double_one)

section \<open>The worker ranges of the filter\<close>

lemma splits_loop_exact:
  assumes "\<forall>i\<in>set idxs. 0 \<le> i \<and> 0 \<le> (i + 1) * s \<and> (i + 1) * s \<le> 2 ^ 53 \<and> i + 1 \<le> 2 ^ 53"
    and "0 \<le> s"
  shows "splits_loop (Finite (of_int s)) idxs = Inr (map (\<lambda>i. (i * s, (i + 1) * s)) idxs)"
  using assms(1)
proof (induction idxs)
  case Nil
  show ?case by simp
next
  case (Cons i idxs)
  have i: "0 \<le> i" "(i + 1) * s \<le> 2 ^ 53" "i + 1 \<le> 2 ^ 53" using Cons.prems by simp_all
  have is0: "0 \<le> i * s" using i(1) assms(2) by simp
  have "i * s \<le> (i + 1) * s" using assms(2) by (intro mult_right_mono) simp_all
  with i(2) have is53: "i * s \<le> 2 ^ 53" by linarith
  have c1: "int_to_float i = Inr (Finite (of_int i))" using i by (intro int_to_float_exact) simp
  have c2: "int_to_float (i + 1) = Inr (Finite (of_int (i + 1)))" using i by (intro int_to_float_exact) simp
  have m1: "float_mul (Finite (of_int i)) (Finite (of_int s)) = Finite (of_int (i * s))"
    using is0 is53 by (intro float_mul_ints) simp
  have s1: "0 \<le> (i + 1) * s" using i(1) assms(2) by simp
  have m2: "float_mul (Finite (of_int (i + 1))) (Finite (of_int s)) = Finite (of_int ((i + 1) * s))"
    using s1 i(2) by (intro float_mul_ints) simp
  have rest: "\<forall>i\<in>set idxs. 0 \<le> i \<and> 0 \<le> (i + 1) * s \<and> (i + 1) * s \<le> 2 ^ 53 \<and> i + 1 \<le> 2 ^ 53"
    using Cons.prems by simp
  have fl: "math_floor (Finite (of_int n)) = Inr n" for n by simp
  show ?case
    by (simp add: c1 c2 m1 m2 bind_result_def Cons.IH [OF rest]
          del: float_mul.simps of_int_add of_int_mult)
qed

lemma thread_splits_exact:
  assumes "0 \<le> K" and "K \<le> 2 ^ 53" and "1 \<le> T" and "T \<le> 2 ^ 53" and "T dvd K"
  shows "thread_splits K T = Inr (map (\<lambda>i. (i * (K div T), (i + 1) * (K div T))) [0..T - 1])"
proof -
  define s where "s = K div T"
  have T: "0 < T" using assms(3) by simp
  have s0: "0 \<le> s" using assms(1) T by (simp add: s_def pos_imp_zdiv_nonneg_iff)
  have sK: "s \<le> K" unfolding s_def using assms(1) T by (rule div_le_self_int)
  have K: "K = T * s" using assms(5) by (simp add: s_def)
  have c1: "int_to_float K = Inr (Finite (of_int K))" using assms(1,2) by (intro int_to_float_exact) simp
  have c2: "int_to_float T = Inr (Finite (of_int T))" using assms(3,4) by (intro int_to_float_exact) simp
  have q: "(of_int K :: rat) / of_int T = of_int s"
    unfolding s_def using assms(5) by (simp add: of_int_div)
  have "round_double (of_int s) = Finite (of_int s)"
    using s0 sK assms(2) by (intro round_double_of_int) simp
  then have d: "float_truediv (Finite (of_int K)) (Finite (of_int T)) = Inr (Finite (of_int s))"
    using T by (simp add: q)
  have idx: "\<forall>i\<in>set [0..T - 1]. 0 \<le> i \<and> 0 \<le> (i + 1) * s \<and> (i + 1) * s \<le> 2 ^ 53 \<and> i + 1 \<le> 2 ^ 53"
  proof
    fix i assume "i \<in> set [0..T - 1]"
    then have i: "0 \<le> i" "i + 1 \<le> T" by simp_all
    have "(i + 1) * s \<le> T * s" using i s0 by (intro mult_right_mono) simp_all
    with K assms(2,4) i s0 show "0 \<le> i \<and> 0 \<le> (i + 1) * s \<and> (i + 1) * s \<le> 2 ^ 53 \<and> i + 1 \<le> 2 ^ 53"
      by simp
  qed
  have sl: "splits_loop (Finite (of_int s)) [0..T - 1]
      = Inr (map (\<lambda>i. (i * s, (i + 1) * s)) [0..T - 1])"
    using idx s0 by (rule splits_loop_exact)
  show ?thesis
    unfolding thread_splits_def c1 c2 s_def [symmetric]
    by (simp add: bind_result_def d sl del: float_truediv.simps)
qed

lemma upto_0_10: "[0..10] = [0, 1, 2, 3, 4, 5, 6, 7, 8, 9, 10 :: int]"
  by (simp add: upto_rec1)

lemma thread_splits_15_11:
  "thread_splits 15 11 =
     Inr [(0, 1), (1, 2), (2, 4), (4, 5), (5, 6), (6, 8), (8, 9), (9, 10), (10, 12), (12, 13), (13, 14)]"
  by (simp add: thread_splits_def bind_result_def int_to_float_def round_double_numeral
        round_double_one upto_0_10 float_truediv_15_11 float_mul_zero floor_eq_iff
        float_mul_15_11_1 float_mul_15_11_2 float_mul_15_11_3 float_mul_15_11_4
        float_mul_15_11_5 float_mul_15_11_6 float_mul_15_11_7 float_mul_15_11_8
        float_mul_15_11_9 float_mul_15_11_10 float_mul_15_11_11
        del: float_mul.simps float_truediv.simps)

section \<open>The claims\<close>

text \<open>
  \<^bold>\<open>C1\<close>. The claim: for \<open>0 \<le> r < N\<close>, \<open>horizontal_split((W, H), r, N)\<close> returns
  \<open>min_y = floor((H/N) r)\<close> and \<open>max_y = floor((H/N) (r + 1))\<close> with the exact quotient
  \<open>H/N\<close>. The code rounds the quotient and each product to a double. For a 1000-row
  image in 19 bands the last band, region 18, ends at row 999, where the exact formula
  gives 1000: the last row belongs to no band. The boundary case of the claim, one band
  over a 100 by 100 image, does return the whole image.
\<close>

theorem C1_last_band_of_1000_rows:
  "horizontal_split (W, 1000) 18 19 = Inr (Rectangle 0 947 W 999)
   \<and> \<lfloor>(1000 / 19 :: rat) * (18 + 1)\<rfloor> = 1000
   \<and> horizontal_split (100, 100) 0 1 = Inr (Rectangle 0 0 100 100)"
  using band_1000_19_18 [of W] whole_image_100 by simp

text \<open>
  \<^bold>\<open>C2\<close>. The claim: the \<open>N\<close> bands are contiguous and together cover \<open>[0, H)\<close>.
  The eleven bands of a 15-row image are contiguous, but the last one ends at row 14:
  together they cover \<open>[0, 14)\<close>, and row 14 is in no band.
\<close>

theorem C2_bands_of_15_rows:
  "map (\<lambda>r. horizontal_split (W, 15) r 11) [0, 1, 2, 3, 4, 5, 6, 7, 8, 9, 10]
   = [Inr (Rectangle 0 0 W 1), Inr (Rectangle 0 1 W 2), Inr (Rectangle 0 2 W 4),
      Inr (Rectangle 0 4 W 5), Inr (Rectangle 0 5 W 6), Inr (Rectangle 0 6 W 8),
      Inr (Rectangle 0 8 W 9), Inr (Rectangle 0 9 W 10), Inr (Rectangle 0 10 W 12),
      Inr (Rectangle 0 12 W 13), Inr (Rectangle 0 13 W 14)]"
  by (simp add: band_15_11_0 band_15_11_1 band_15_11_2 band_15_11_3 band_15_11_4 band_15_11_5
        band_15_11_6 band_15_11_7 band_15_11_8 band_15_11_9 band_15_11_10)

text \<open>
  \<^bold>\<open>C3\<close>. The claim: for every size, every \<open>N \<ge> 1\<close> and every \<open>0 \<le> region < N\<^sup>2\<close>,
  \<open>tile_split\<close> returns the tile at row \<open>floor(region / N)\<close> and column
  \<open>region mod N\<close> of the grid with cells of \<open>floor(W/N)\<close> by \<open>floor(H/N)\<close> pixels.
  The row index is the floor of a double, which cannot hold every integer beyond
  \<open>2^53\<close>: for \<open>region = 2^55 - 1\<close> and \<open>N = 2^28\<close> the quotient rounds up to
  \<open>2^27\<close>, one row below the tile that the claim names.
\<close>

theorem C3_counterexample_large_region:
  "tile_split (268435456, 268435456) 36028797018963967 268435456
     = Inr (Rectangle 268435455 134217728 268435456 134217729)
   \<and> (268435456 div 268435456) * (36028797018963967 div 268435456) = (134217727 :: int)"
  using tile_of_large_region by simp

text \<open>
  \<^bold>\<open>C3\<close>, amended: the claim holds whenever the width, the height and the region index
  are below \<open>2^53\<close>, for every \<open>N \<ge> 1\<close>.
\<close>

theorem C3_tile_split_grid:
  assumes "0 \<le> W" and "W < 2 ^ 53" and "0 \<le> H" and "H < 2 ^ 53"
    and "1 \<le> N" and "0 \<le> region" and "region < N * N" and "region < 2 ^ 53"
  shows "tile_split (W, H) region N =
    Inr (Rectangle ((W div N) * (region mod N)) ((H div N) * (region div N))
          ((W div N) * (region mod N + 1)) ((H div N) * (region div N + 1)))"
  using assms by (rule tile_split_grid)

theorem C3_tile_split_grid_witness:
  "(0::int) \<le> 100 \<and> (100::int) < 2 ^ 53 \<and> (0::int) \<le> 70 \<and> (70::int) < 2 ^ 53 \<and> (1::int) \<le> 4
   \<and> (0::int) \<le> 11 \<and> (11::int) < 4 * 4 \<and> (11::int) < 2 ^ 53
   \<and> tile_split (100, 70) 11 4 = Inr (Rectangle 75 34 100 51)"
  using C3_tile_split_grid [of 100 70 4 11] by simp

text \<open>
  \<^bold>\<open>C4\<close>. The claim: both splitters reject a region outside \<open>[0, num_splits)\<close>,
  respectively \<open>[0, num_splits\<^sup>2)\<close>, so that region \<open>-1\<close> fails. The assertion of the
  code only compares the region with the upper bound: a negative region is accepted and
  yields a band above the image.
\<close>

theorem C4_counterexample_negative_region:
  "horizontal_split (100, 100) (- 1) 2 = Inr (Rectangle 0 (- 50) 100 0)"
  by (rule negative_region_100)

text \<open>
  \<^bold>\<open>C4\<close>, amended: \<open>horizontal_split\<close> fails its assertion exactly when
  \<open>region \<ge> num_splits\<close>, and \<open>tile_split\<close> exactly when \<open>region \<ge> num_splits\<^sup>2\<close>; a
  negative region is not rejected. On a 10 by 10 image with \<open>num_splits = 3\<close>, region 9
  fails and region 8 is the bottom-right tile \<open>(6, 6, 9, 9)\<close>.
\<close>

theorem C4_assertion_checks_upper_bound:
  "(horizontal_split image_size region num_splits = Inl AssertionError \<longleftrightarrow> num_splits \<le> region)
   \<and> (tile_split image_size region num_splits = Inl AssertionError
        \<longleftrightarrow> num_splits * num_splits \<le> region)
   \<and> tile_split (10, 10) 9 3 = Inl AssertionError
   \<and> tile_split (10, 10) 8 3 = Inr (Rectangle 6 6 9 9)"
proof -
  have "tile_split (10, 10) 8 3 = Inr (Rectangle 6 6 9 9)"
    using tile_split_grid [of 10 10 3 8] by simp
  then show ?thesis
    by (simp add: horizontal_split_assert_iff tile_split_assert_iff)
qed

theorem C4_assertion_checks_upper_bound_witness:
  "horizontal_split (100, 100) 2 2 = Inl AssertionError
   \<and> tile_split (10, 10) (- 1) 3 \<noteq> Inl AssertionError
   \<and> tile_split (10, 10) 8 3 = Inr (Rectangle 6 6 9 9)"
  using C4_assertion_checks_upper_bound [of "(100, 100)" 2 2]
    C4_assertion_checks_upper_bound [of "(10, 10)" "- 1" 3]
  by simp

text \<open>
  \<^bold>\<open>C5\<close>. The claim: the estimate increases with \<open>chunk_size\<close>, with \<open>num_bands\<close>, and
  with \<open>chunk_overlap\<close> below \<open>chunk_size\<close>. On a 100 by 1000 image with 3 bands in 2
  regions, 32-byte elements and an overlap of 1, the estimate is 6400000 for chunk size 2
  and 3600000 for chunk size 3: it falls when the chunk size grows, because the chunk
  count shrinks with the square of the stride. A band count of 0 stands for the image's
  own 3 bands and gives 19200000, more than a band count of 1. On an image of width 0
  the estimate is 0 for every overlap: it does not always grow.
\<close>

theorem C5_counterexample_chunk_size:
  "fst (estimate_memory_usage TFRecordImage_size TFRecordImage_get_num_bands 2 2 1 32 1
          (TFRecordImage_init ''a.tfrecord'' 2) example_record_world) = Inr (Finite 6400000)
   \<and> fst (estimate_memory_usage TFRecordImage_size TFRecordImage_get_num_bands 2 3 1 32 1
          (TFRecordImage_init ''a.tfrecord'' 2) example_record_world) = Inr (Finite 3600000)
   \<and> fst (estimate_memory_usage TFRecordImage_size TFRecordImage_get_num_bands 2 2 1 32 0
          (TFRecordImage_init ''a.tfrecord'' 2) example_record_world) = Inr (Finite 19200000)
   \<and> fst (estimate_memory_usage TFRecordImage_size TFRecordImage_get_num_bands 2 2 0 32 1
          (TFRecordImage_init ''a.tfrecord'' 2) example_empty_record_world) = Inr (Finite 0)
   \<and> fst (estimate_memory_usage TFRecordImage_size TFRecordImage_get_num_bands 2 2 1 32 1
          (TFRecordImage_init ''a.tfrecord'' 2) example_empty_record_world) = Inr (Finite 0)"
proof -
  have cached: "TFRecordImage_size
      ((TFRecordImage_init ''a.tfrecord'' 2)\<lparr>tf_num_bands := Some 3, tf_size := Some (100, 1000)\<rparr>) w
      = (Inr (100, 1000),
         (TFRecordImage_init ''a.tfrecord'' 2)\<lparr>tf_num_bands := Some 3, tf_size := Some (100, 1000)\<rparr>, w)" for w
    by (rule TFRecordImage_size_cached) simp
  show ?thesis
    by (simp add: estimate_memory_usage_def example_record_size example_empty_record_size
          example_estimates example_record_bands cached)
qed

text \<open>
  \<^bold>\<open>C5\<close>, amended. The band count in effect is the argument \<open>num_bands\<close> when it is at
  least 1, and the image's own band count, asked of the handle, when it is below 1 (the
  default 0). For two calls on a handle whose size resolves to the same image of at most
  \<open>2^100\<close> by \<open>2^100\<close> pixels, with at least one region, an element size and band
  counts between 0 and \<open>2^100\<close>, and a chunk size and overlaps of magnitude at most
  \<open>2^100\<close>: both estimates are finite floats, and the estimate does not decrease when
  the band count in effect grows, nor when \<open>chunk_overlap\<close> grows and stays below
  \<open>chunk_size\<close>, whatever the argument \<open>num_bands\<close> is. Nothing is stated about
  \<open>chunk_size\<close>.
\<close>

theorem C5_estimate_monotone_in_bands_and_overlap:
  assumes "(if bands1 < 1 then get_num_bands_method h w else (Inr bands1, h, w))
           = (Inr nb1, h1, w1)"
    and "fst (size_method h1 w1) = Inr (W, H)"
    and "(if bands2 < 1 then get_num_bands_method h w else (Inr bands2, h, w))
         = (Inr nb2, h2, w2)"
    and "fst (size_method h2 w2) = Inr (W, H)"
    and "0 \<le> W" and "W \<le> 2 ^ 100" and "0 \<le> H" and "H \<le> 2 ^ 100" and "1 \<le> num_regions"
    and "0 \<le> elem_size" and "elem_size \<le> 2 ^ 100"
    and "\<bar>chunk_size\<bar> \<le> 2 ^ 100"
    and "- (2 ^ 100) \<le> overlap1" and "overlap1 \<le> overlap2" and "overlap2 < chunk_size"
    and "0 \<le> nb1" and "nb1 \<le> nb2" and "nb2 \<le> 2 ^ 100"
  shows "\<exists>a b.
      fst (estimate_memory_usage size_method get_num_bands_method num_regions
             chunk_size overlap1 elem_size bands1 h w) = Inr (Finite a)
    \<and> fst (estimate_memory_usage size_method get_num_bands_method num_regions
             chunk_size overlap2 elem_size bands2 h w) = Inr (Finite b)
    \<and> 0 \<le> a \<and> a \<le> b"
proof -
  have e1: "fst (estimate_memory_usage size_method get_num_bands_method num_regions
                   chunk_size overlap1 elem_size bands1 h w)
            = estimate_bytes (W, H) num_regions chunk_size overlap1 nb1 elem_size"
    using assms(1,2) by (rule estimate_memory_usage_resolved)
  have e2: "fst (estimate_memory_usage size_method get_num_bands_method num_regions
                   chunk_size overlap2 elem_size bands2 h w)
            = estimate_bytes (W, H) num_regions chunk_size overlap2 nb2 elem_size"
    using assms(3,4) by (rule estimate_memory_usage_resolved)
  from estimate_bytes_mono [OF assms(5-18)] show ?thesis
    unfolding e1 e2 .
qed

theorem C5_estimate_monotone_witness:
  "(if (1::int) < 1
    then TFRecordImage_get_num_bands (TFRecordImage_init ''a.tfrecord'' 2) example_record_world
    else (Inr 1, (TFRecordImage_init ''a.tfrecord'' 2), example_record_world))
     = (Inr 1, (TFRecordImage_init ''a.tfrecord'' 2), example_record_world)
   \<and> fst (TFRecordImage_size (TFRecordImage_init ''a.tfrecord'' 2) example_record_world) = Inr (100, 1000)
   \<and> (if (0::int) < 1
      then TFRecordImage_get_num_bands (TFRecordImage_init ''a.tfrecord'' 2) example_record_world
      else (Inr 0, (TFRecordImage_init ''a.tfrecord'' 2), example_record_world))
     = (Inr 3, ((TFRecordImage_init ''a.tfrecord'' 2)\<lparr>tf_num_bands := Some 3, tf_size := Some (100, 1000)\<rparr>),
        (example_record_world\<lparr>queries := [GetRecordInfo ''a.tfrecord'']\<rparr>))
   \<and> fst (TFRecordImage_size ((TFRecordImage_init ''a.tfrecord'' 2)\<lparr>tf_num_bands := Some 3, tf_size := Some (100, 1000)\<rparr>)
            (example_record_world\<lparr>queries := [GetRecordInfo ''a.tfrecord'']\<rparr>)) = Inr (100, 1000)
   \<and> (0::int) \<le> 100 \<and> (100::int) \<le> 2 ^ 100 \<and> (0::int) \<le> 1000 \<and> (1000::int) \<le> 2 ^ 100
   \<and> (1::int) \<le> 2 \<and> (0::int) \<le> 32 \<and> (32::int) \<le> 2 ^ 100 \<and> \<bar>256::int\<bar> \<le> 2 ^ 100
   \<and> - (2 ^ 100) \<le> (0::int) \<and> (0::int) \<le> 128 \<and> (128::int) < 256
   \<and> (0::int) \<le> 1 \<and> (1::int) \<le> 3 \<and> (3::int) \<le> 2 ^ 100
   \<and> (\<exists>a b.
        fst (estimate_memory_usage TFRecordImage_size TFRecordImage_get_num_bands 2 256 0 32 1
               (TFRecordImage_init ''a.tfrecord'' 2) example_record_world) = Inr (Finite a)
      \<and> fst (estimate_memory_usage TFRecordImage_size TFRecordImage_get_num_bands 2 256 128 32 0
               (TFRecordImage_init ''a.tfrecord'' 2) example_record_world) = Inr (Finite b)
      \<and> 0 \<le> a \<and> a \<le> b)"
proof -
  have r1: "(if (1::int) < 1
      then TFRecordImage_get_num_bands (TFRecordImage_init ''a.tfrecord'' 2) example_record_world
      else (Inr 1, (TFRecordImage_init ''a.tfrecord'' 2), example_record_world))
     = (Inr 1, (TFRecordImage_init ''a.tfrecord'' 2), example_record_world)"
    by simp
  have r2: "fst (TFRecordImage_size (TFRecordImage_init ''a.tfrecord'' 2) example_record_world) = Inr (100, 1000)"
    by (simp add: example_record_size)
  have r3: "(if (0::int) < 1
      then TFRecordImage_get_num_bands (TFRecordImage_init ''a.tfrecord'' 2) example_record_world
      else (Inr 0, (TFRecordImage_init ''a.tfrecord'' 2), example_record_world))
     = (Inr 3, ((TFRecordImage_init ''a.tfrecord'' 2)\<lparr>tf_num_bands := Some 3, tf_size := Some (100, 1000)\<rparr>),
        (example_record_world\<lparr>queries := [GetRecordInfo ''a.tfrecord'']\<rparr>))"
    by (simp add: example_record_bands)
  have r4: "fst (TFRecordImage_size ((TFRecordImage_init ''a.tfrecord'' 2)\<lparr>tf_num_bands := Some 3, tf_size := Some (100, 1000)\<rparr>)
              (example_record_world\<lparr>queries := [GetRecordInfo ''a.tfrecord'']\<rparr>)) = Inr (100, 1000)"
    by (simp add: TFRecordImage_size_def)
  from C5_estimate_monotone_in_bands_and_overlap
      [where size_method = TFRecordImage_size and get_num_bands_method = TFRecordImage_get_num_bands
         and num_regions = 2 and elem_size = 32 and chunk_size = 256
         and ?overlap1.0 = 0 and ?overlap2.0 = 128, OF r1 r2 r3 r4]
    r1 r2 r3 r4
  show ?thesis by simp
qed

text \<open>
  \<^bold>\<open>C6\<close>. The claim: for every chunk batch and every positive thread count the filter
  returns the chunks that are not entirely zero, in their order, and reports how many it
  removed. The first statement of the function is \<^verbatim>\<open>data.shape()\<close>. A chunk batch is
  a NumPy array, whose \<open>shape\<close> is a tuple: the call raises \<open>TypeError\<close>, for every
  array and every thread count, and the function returns nothing. So it does on three
  chunks of which none is entirely zero, with one thread.
\<close>

theorem C6_shape_call_raises_type_error:
  "parallel_filter_chunks data num_threads = Inl TypeError
   \<and> parallel_filter_chunks example_partial_batch 1 = Inl TypeError"
  by (simp add: parallel_filter_chunks_def call_tuple_def bind_result_def)

text \<open>
  \<^bold>\<open>C7\<close>. The claim: the filter returns the same result for every thread count, 1
  thread and \<open>K\<close> threads in particular, because the worker ranges partition \<open>[0, K)\<close>.
  On an array of 15 chunks the function returns no result with 1, with 11 or with 15
  threads: each call raises \<open>TypeError\<close> in its first statement. The ranges that lines
  26 to 30 compute from the 15 chunks of that array for 11 threads are no partition of
  \<open>[0, 15)\<close> either: their ends are floors of float products, the last range is
  \<open>[13, 14)\<close>, and index 14 is in none of them. No run gets as far as these ranges.
\<close>

theorem C7_fifteen_chunks_eleven_threads:
  "parallel_filter_chunks example_batch 1 = Inl TypeError
   \<and> parallel_filter_chunks example_batch 15 = Inl TypeError
   \<and> parallel_filter_chunks example_batch 11 = Inl TypeError
   \<and> thread_splits (fst (batch_shape example_batch)) 11 =
       Inr [(0, 1), (1, 2), (2, 4), (4, 5), (5, 6), (6, 8), (8, 9), (9, 10), (10, 12), (12, 13),
            (13, 14)]"
proof -
  have "fst (batch_shape example_batch) = 15"
    by (simp add: batch_shape_def example_batch_def)
  then show ?thesis
    by (simp add: parallel_filter_chunks_def call_tuple_def bind_result_def thread_splits_15_11)
qed

text \<open>
  \<^bold>\<open>C8\<close>. The claim: on a TFRecord image both \<open>read\<close> and \<open>chunk_image_region\<close> fail
  with an unsupported-operation error. \<open>read\<close> raises \<open>NotImplementedError\<close>;
  \<open>chunk_image_region\<close> has an empty body and returns \<open>None\<close>.
\<close>

theorem C8_chunk_image_region_returns_none:
  "TFRecordImage_chunk_image_region roi chunk_size chunk_overlap data_type h w = (Inr None, h, w)
   \<and> TFRecordImage_read data_type' roi' h w = (Inl NotImplementedError, h, w)"
  by (simp add: TFRecordImage_chunk_image_region_def TFRecordImage_read_def)

text \<open>
  \<^bold>\<open>C9\<close>. The claim: every image handle resolves its size and band count at most once
  and answers from its cache afterwards. A \<open>SimpleTiff\<close> keeps nothing: after a first
  successful \<open>size()\<close>, a second call on the same handle opens the file again, and when
  the file has changed in between it returns the new size.
\<close>

theorem C9_counterexample_tiff_reads_again:
  "SimpleTiff_size (SimpleTiff_init ''a.tif'' 1) example_tiff_world
     = (Inr (100, 100), SimpleTiff_init ''a.tif'' 1,
        example_tiff_world\<lparr>queries := [LoadImages [''a.tif'']]\<rparr>)
   \<and> SimpleTiff_size (SimpleTiff_init ''a.tif'' 1) example_tiff_world_resized
     = (Inr (200, 200), SimpleTiff_init ''a.tif'' 1,
        example_tiff_world_resized\<lparr>queries := [LoadImages [''a.tif''], LoadImages [''a.tif'']]\<rparr>)"
  by (simp add: SimpleTiff_size_def TiffImage_size_def TiffImage_load_def SimpleTiff_prep_def
        SimpleTiff_init_def example_tiff_world_def example_tiff_world_resized_def)

text \<open>
  \<^bold>\<open>C9\<close>, amended: a \<open>TFRecordImage\<close> resolves its size and band count with one query.
  When the first \<open>size()\<close> or \<open>get_num_bands()\<close> on a new handle succeeds, the record
  has answered with a band count and a size; the call has made one query and stored
  both; and every later \<open>size()\<close>, \<open>get_num_bands()\<close> and \<open>tiles()\<close> returns that size,
  that band count and the bands of that size, in whatever state the backing record is,
  and leaves the handle and the query log as they are. A \<open>SimpleTiff\<close> stores nothing
  and queries its file on every \<open>size()\<close> and \<open>get_num_bands()\<close>.
\<close>

theorem C9_tfrecord_resolves_once:
  assumes "TFRecordImage_size (TFRecordImage_init path n) w = (Inr s0, h1, w1)
           \<or> TFRecordImage_get_num_bands (TFRecordImage_init path n) w = (Inr nb0, h1, w1)"
  shows "(\<exists>nb s. record_info w path = Inr (nb, s)
            \<and> TFRecordImage_size (TFRecordImage_init path n) w = (Inr s, h1, w1)
            \<and> TFRecordImage_get_num_bands (TFRecordImage_init path n) w = (Inr nb, h1, w1)
            \<and> h1 = (TFRecordImage_init path n)\<lparr>tf_num_bands := Some nb, tf_size := Some s\<rparr>
            \<and> w1 = w\<lparr>queries := queries w @ [GetRecordInfo path]\<rparr>
            \<and> TFRecordImage_size h1 w2 = (Inr s, h1, w2)
            \<and> TFRecordImage_get_num_bands h1 w2 = (Inr nb, h1, w2)
            \<and> TFRecordImage_tiles h1 w2
                = (until_error (map (\<lambda>i. horizontal_split s (int i) n) [0..<nat n]), h1, w2))
    \<and> snd (SimpleTiff_size t wt) = (t, wt\<lparr>queries := queries wt @ [LoadImages [st_path t]]\<rparr>)
    \<and> snd (SimpleTiff_get_num_bands t wt)
        = (t, wt\<lparr>queries := queries wt @ [LoadImages [st_path t]]\<rparr>)"
proof -
  have tiff: "snd (SimpleTiff_size t wt) = (t, wt\<lparr>queries := queries wt @ [LoadImages [st_path t]]\<rparr>)"
    "snd (SimpleTiff_get_num_bands t wt) = (t, wt\<lparr>queries := queries wt @ [LoadImages [st_path t]]\<rparr>)"
    by (simp_all add: SimpleTiff_size_def SimpleTiff_get_num_bands_def TiffImage_size_def
          TiffImage_get_num_bands_def TiffImage_load_def SimpleTiff_prep_def split: sum.splits)
  from assms obtain nb s where rec: "record_info w path = Inr (nb, s)"
    and h1: "h1 = (TFRecordImage_init path n)\<lparr>tf_num_bands := Some nb, tf_size := Some s\<rparr>"
    and w1: "w1 = w\<lparr>queries := queries w @ [GetRecordInfo path]\<rparr>"
  proof
    assume "TFRecordImage_size (TFRecordImage_init path n) w = (Inr s0, h1, w1)"
    from TFRecordImage_first_size [OF this] that show ?thesis by blast
  next
    assume "TFRecordImage_get_num_bands (TFRecordImage_init path n) w = (Inr nb0, h1, w1)"
    from TFRecordImage_first_num_bands [OF this] that show ?thesis by blast
  qed
  have first: "TFRecordImage_size (TFRecordImage_init path n) w = (Inr s, h1, w1)"
    "TFRecordImage_get_num_bands (TFRecordImage_init path n) w = (Inr nb, h1, w1)"
    unfolding h1 w1 by (rule TFRecordImage_first_calls [OF rec])+
  have s: "tf_size h1 = Some s" and b: "tf_num_bands h1 = Some nb" and n: "tf_num_regions h1 = n"
    by (simp_all add: h1 TFRecordImage_init_def)
  have later: "TFRecordImage_size h1 w2 = (Inr s, h1, w2)"
    "TFRecordImage_get_num_bands h1 w2 = (Inr nb, h1, w2)"
    "TFRecordImage_tiles h1 w2
       = (until_error (map (\<lambda>i. horizontal_split s (int i) n) [0..<nat n]), h1, w2)"
    using TFRecordImage_tiles_cached [OF s, of w2]
    by (simp_all add: TFRecordImage_size_cached [OF s] TFRecordImage_get_num_bands_cached [OF b] n)
  from rec first h1 w1 later have
    "\<exists>nb s. record_info w path = Inr (nb, s)
        \<and> TFRecordImage_size (TFRecordImage_init path n) w = (Inr s, h1, w1)
        \<and> TFRecordImage_get_num_bands (TFRecordImage_init path n) w = (Inr nb, h1, w1)
        \<and> h1 = (TFRecordImage_init path n)\<lparr>tf_num_bands := Some nb, tf_size := Some s\<rparr>
        \<and> w1 = w\<lparr>queries := queries w @ [GetRecordInfo path]\<rparr>
        \<and> TFRecordImage_size h1 w2 = (Inr s, h1, w2)
        \<and> TFRecordImage_get_num_bands h1 w2 = (Inr nb, h1, w2)
        \<and> TFRecordImage_tiles h1 w2
            = (until_error (map (\<lambda>i. horizontal_split s (int i) n) [0..<nat n]), h1, w2)"
    by blast
  with tiff show ?thesis by blast
qed

theorem C9_tfrecord_resolves_once_witness:
  "(TFRecordImage_size (TFRecordImage_init ''a.tfrecord'' 2) example_record_world
      = (Inr (100, 1000), ((TFRecordImage_init ''a.tfrecord'' 2)\<lparr>tf_num_bands := Some 3, tf_size := Some (100, 1000)\<rparr>),
         (example_record_world\<lparr>queries := [GetRecordInfo ''a.tfrecord'']\<rparr>))
    \<or> TFRecordImage_get_num_bands (TFRecordImage_init ''a.tfrecord'' 2) example_record_world
      = (Inr 3, ((TFRecordImage_init ''a.tfrecord'' 2)\<lparr>tf_num_bands := Some 3, tf_size := Some (100, 1000)\<rparr>),
         (example_record_world\<lparr>queries := [GetRecordInfo ''a.tfrecord'']\<rparr>)))
   \<and> TFRecordImage_size ((TFRecordImage_init ''a.tfrecord'' 2)\<lparr>tf_num_bands := Some 3, tf_size := Some (100, 1000)\<rparr>) example_record_world_resized
      = (Inr (100, 1000), ((TFRecordImage_init ''a.tfrecord'' 2)\<lparr>tf_num_bands := Some 3, tf_size := Some (100, 1000)\<rparr>), example_record_world_resized)
   \<and> TFRecordImage_get_num_bands ((TFRecordImage_init ''a.tfrecord'' 2)\<lparr>tf_num_bands := Some 3, tf_size := Some (100, 1000)\<rparr>) example_record_world_resized
      = (Inr 3, ((TFRecordImage_init ''a.tfrecord'' 2)\<lparr>tf_num_bands := Some 3, tf_size := Some (100, 1000)\<rparr>), example_record_world_resized)
   \<and> record_info example_record_world_resized ''a.tfrecord'' = Inr (4, 200, 2000)"
  using C9_tfrecord_resolves_once [OF disjI1 [OF example_record_size],
      of example_record_world_resized]
    example_record_size
  by (auto simp: example_record_world_def example_record_world_resized_def)

text \<open>
  \<^bold>\<open>C10\<close>. The claim: with \<open>chunk_overlap = chunk_size\<close> the estimate always fails with
  a division by zero. The height is divided by the region count first, as a float: a
  record that declares a height of \<open>2^1024\<close> pixels makes that division raise
  \<open>OverflowError\<close> before the stride is used.
\<close>

theorem C10_counterexample_huge_height:
  "fst (estimate_memory_usage TFRecordImage_size TFRecordImage_get_num_bands 1 4 4 32 1
          (TFRecordImage_init ''a.tfrecord'' 1) example_huge_world) = Inl OverflowError"
proof -
  have "TFRecordImage_size (TFRecordImage_init ''a.tfrecord'' 1) example_huge_world
     = (Inr (1, huge_height),
        (TFRecordImage_init ''a.tfrecord'' 1)\<lparr>tf_num_bands := Some 1, tf_size := Some (1, huge_height)\<rparr>,
        example_huge_world\<lparr>queries := [GetRecordInfo ''a.tfrecord'']\<rparr>)"
    by (simp add: TFRecordImage_size_def TFRecordImage_init_def TFRecordImage_get_bands_size_def
          example_huge_world_def)
  then show ?thesis
    by (simp add: estimate_memory_usage_def estimate_bytes_def bind_result_def Let_def
          int_truediv_huge)
qed

text \<open>
  \<^bold>\<open>C10\<close>, amended: for every argument \<open>num_bands\<close>, when the band count is resolved
  (asked of the handle for an argument below 1, the argument itself otherwise) and the
  size then resolves to a width and a height of magnitude at most \<open>2^1023\<close>, with at
  least one region, \<open>estimate_memory_usage\<close> with \<open>chunk_overlap = chunk_size\<close> raises
  \<open>ZeroDivisionError\<close>; no argument check precedes the division.
\<close>

theorem C10_zero_stride_divides_by_zero:
  assumes "(if num_bands < 1 then get_num_bands_method h w else (Inr num_bands, h, w))
           = (Inr nb, h1, w1)"
    and "size_method h1 w1 = (Inr (W, H), h2, w2)"
    and "1 \<le> num_regions"
    and "\<bar>W\<bar> \<le> 2 ^ 1023" and "\<bar>H\<bar> \<le> 2 ^ 1023"
  shows "estimate_memory_usage size_method get_num_bands_method num_regions
           chunk_size chunk_size elem_size num_bands h w = (Inl ZeroDivisionError, h2, w2)"
  using estimate_bytes_zero_stride [OF assms(4,5,3)]
  by (simp add: estimate_memory_usage_resolved_state
        [where size_method = size_method and get_num_bands_method = get_num_bands_method
           and h = h and w = w and num_bands = num_bands, OF assms(1,2)])

theorem C10_zero_stride_witness:
  "(if (0::int) < 1
    then TFRecordImage_get_num_bands (TFRecordImage_init ''a.tfrecord'' 2) example_record_world
    else (Inr 0, (TFRecordImage_init ''a.tfrecord'' 2), example_record_world))
     = (Inr 3, ((TFRecordImage_init ''a.tfrecord'' 2)\<lparr>tf_num_bands := Some 3, tf_size := Some (100, 1000)\<rparr>),
        (example_record_world\<lparr>queries := [GetRecordInfo ''a.tfrecord'']\<rparr>))
   \<and> TFRecordImage_size ((TFRecordImage_init ''a.tfrecord'' 2)\<lparr>tf_num_bands := Some 3, tf_size := Some (100, 1000)\<rparr>)
        (example_record_world\<lparr>queries := [GetRecordInfo ''a.tfrecord'']\<rparr>)
      = (Inr (100, 1000), ((TFRecordImage_init ''a.tfrecord'' 2)\<lparr>tf_num_bands := Some 3, tf_size := Some (100, 1000)\<rparr>),
         (example_record_world\<lparr>queries := [GetRecordInfo ''a.tfrecord'']\<rparr>))
   \<and> (1::int) \<le> 2 \<and> \<bar>100::int\<bar> \<le> 2 ^ 1023 \<and> \<bar>1000::int\<bar> \<le> 2 ^ 1023
   \<and> estimate_memory_usage TFRecordImage_size TFRecordImage_get_num_bands 2 256 256 32 0
        (TFRecordImage_init ''a.tfrecord'' 2) example_record_world
      = (Inl ZeroDivisionError, ((TFRecordImage_init ''a.tfrecord'' 2)\<lparr>tf_num_bands := Some 3, tf_size := Some (100, 1000)\<rparr>),
         (example_record_world\<lparr>queries := [GetRecordInfo ''a.tfrecord'']\<rparr>))"
proof -
  have r1: "(if (0::int) < 1
      then TFRecordImage_get_num_bands (TFRecordImage_init ''a.tfrecord'' 2) example_record_world
      else (Inr 0, (TFRecordImage_init ''a.tfrecord'' 2), example_record_world))
     = (Inr 3, ((TFRecordImage_init ''a.tfrecord'' 2)\<lparr>tf_num_bands := Some 3, tf_size := Some (100, 1000)\<rparr>),
        (example_record_world\<lparr>queries := [GetRecordInfo ''a.tfrecord'']\<rparr>))"
    by (simp add: example_record_bands)
  have r2: "TFRecordImage_size ((TFRecordImage_init ''a.tfrecord'' 2)\<lparr>tf_num_bands := Some 3, tf_size := Some (100, 1000)\<rparr>)
        (example_record_world\<lparr>queries := [GetRecordInfo ''a.tfrecord'']\<rparr>)
      = (Inr (100, 1000), ((TFRecordImage_init ''a.tfrecord'' 2)\<lparr>tf_num_bands := Some 3, tf_size := Some (100, 1000)\<rparr>),
         (example_record_world\<lparr>queries := [GetRecordInfo ''a.tfrecord'']\<rparr>))"
    by (simp add: TFRecordImage_size_def)
  from C10_zero_stride_divides_by_zero
      [where size_method = TFRecordImage_size and get_num_bands_method = TFRecordImage_get_num_bands
         and num_regions = 2 and chunk_size = 256 and elem_size = 32, OF r1 r2]
    r1 r2
  show ?thesis by simp
qed

end
